theory Spec2Isabelle
  imports Complex_Main
begin

section \<open>Data model\<close>

text \<open>
  A grid is an array of rows; a cell holds a number or \<open>null\<close> (\<open>None\<close>).
  Reading \<open>grid[row][col]\<close> past the end of a row yields \<open>undefined\<close> in the
  source, which is not \<open>null\<close>: the two readers below say so explicitly.
\<close>

type_synonym SudokuGrid = "nat option list list"

datatype Difficulty = beginner | easy | medium | hard | expert

datatype Strategy =
    naked_single | hidden_single | naked_pair | pointing_pair | box_line_reduction | guessing

text \<open>A \<open>Set<number>\<close> is kept as the list of its members in insertion order.\<close>

type_synonym CandidateGrid = "nat list list list"

record BoxDimensions =
  rows :: nat
  cols :: nat

record SolveResult =
  solved :: bool
  grid :: SudokuGrid
  strategiesUsed :: "Strategy list"
  maxDifficulty :: Difficulty
  steps :: nat

definition isNullAt :: "SudokuGrid \<Rightarrow> nat \<Rightarrow> nat \<Rightarrow> bool" where
  "isNullAt g row col = (row < length g \<and> col < length (g ! row) \<and> g ! row ! col = None)"

definition holdsAt :: "SudokuGrid \<Rightarrow> nat \<Rightarrow> nat \<Rightarrow> nat \<Rightarrow> bool" where
  "holdsAt g row col v = (row < length g \<and> col < length (g ! row) \<and> g ! row ! col = Some v)"

text \<open>The declared type of a grid: square, of size 4, 6 or 9.\<close>

definition wellFormed :: "SudokuGrid \<Rightarrow> bool" where
  "wellFormed g = (length g \<in> {4, 6, 9} \<and> list_all (\<lambda>r. length r = length g) g)"

section \<open>Difficulty table (strategy-solver.ts)\<close>

fun STRATEGY_DIFFICULTY :: "Strategy \<Rightarrow> Difficulty" where
  "STRATEGY_DIFFICULTY naked_single = beginner"
| "STRATEGY_DIFFICULTY hidden_single = easy"
| "STRATEGY_DIFFICULTY naked_pair = medium"
| "STRATEGY_DIFFICULTY pointing_pair = hard"
| "STRATEGY_DIFFICULTY box_line_reduction = hard"
| "STRATEGY_DIFFICULTY guessing = expert"

definition DIFFICULTY_ORDER :: "Difficulty list" where
  "DIFFICULTY_ORDER = [beginner, easy, medium, hard, expert]"

text \<open>\<open>Array.prototype.indexOf\<close>: the first index holding the element, \<open>-1\<close> if none.\<close>

fun indexOf :: "'a list \<Rightarrow> 'a \<Rightarrow> int" where
  "indexOf [] x = -1"
| "indexOf (y # ys) x =
     (if y = x then 0 else (let i = indexOf ys x in if i < 0 then -1 else i + 1))"

definition getDifficultyIndex :: "Difficulty \<Rightarrow> int" where
  "getDifficultyIndex difficulty = indexOf DIFFICULTY_ORDER difficulty"

text \<open>The source's function \<open>maxDifficulty\<close>; the name is taken by the result's field.\<close>

definition maxDifficultyOf :: "Difficulty \<Rightarrow> Difficulty \<Rightarrow> Difficulty" where
  "maxDifficultyOf a b = (if getDifficultyIndex a \<ge> getDifficultyIndex b then a else b)"

section \<open>Validator primitives\<close>

text \<open>
  Modelled from the spec: \<open>getBoxDimensions\<close> of the validator module, which is not
  among the sources. The spec gives the table 4 \<rightarrow> (2,2), 6 \<rightarrow> (2,3), 9 \<rightarrow> (3,3); the hint
  code of the game store writes the same table inline with 3 by 3 as the last case.
\<close>

definition getBoxDimensions :: "nat \<Rightarrow> BoxDimensions" where
  "getBoxDimensions gridSize =
     (if gridSize = 4 then \<lparr>rows = 2, cols = 2\<rparr>
      else if gridSize = 6 then \<lparr>rows = 2, cols = 3\<rparr>
      else \<lparr>rows = 3, cols = 3\<rparr>)"

text \<open>
  Modelled from the spec: \<open>isValidMove\<close> of the validator module (the spec's
  \<open>isLegalPlacement\<close>): the value lies in 1..N and no other cell of the row, the column
  or the box holds it; out-of-range coordinates give \<open>False\<close>.
\<close>

definition isValidMove :: "SudokuGrid \<Rightarrow> nat \<Rightarrow> nat \<Rightarrow> nat \<Rightarrow> bool" where
  "isValidMove g row col v =
     (let n = length g;
          bd = getBoxDimensions n;
          boxRow = (row div rows bd) * rows bd;
          boxCol = (col div cols bd) * cols bd
      in row < n \<and> col < n \<and> 1 \<le> v \<and> v \<le> n
         \<and> list_all (\<lambda>c. c = col \<or> \<not> holdsAt g row c v) [0..<n]
         \<and> list_all (\<lambda>r. r = row \<or> \<not> holdsAt g r col v) [0..<n]
         \<and> list_all (\<lambda>r. list_all (\<lambda>c. (r = row \<and> c = col) \<or> \<not> holdsAt g r c v)
                               [boxCol..<boxCol + cols bd])
                    [boxRow..<boxRow + rows bd])"

text \<open>
  Modelled from the spec: \<open>getCandidates\<close> of the validator module: the ascending
  sequence of the legal values of a cell, empty for out-of-range coordinates.
\<close>

definition getCandidates :: "SudokuGrid \<Rightarrow> nat \<Rightarrow> nat \<Rightarrow> nat list" where
  "getCandidates g row col = filter (\<lambda>v. isValidMove g row col v) [1..<length g + 1]"

text \<open>
  Modelled from the spec: \<open>cloneGrid\<close> of the validator module: a copy with the same
  cells. Object identity is the subject of the store model further down.
\<close>

definition cloneGrid :: "SudokuGrid \<Rightarrow> SudokuGrid" where
  "cloneGrid g = map (\<lambda>r. r) g"

section \<open>Candidate sets\<close>

text \<open>\<open>new Set(array)\<close>: members in order of first occurrence.\<close>

definition setAdd :: "'a \<Rightarrow> 'a list \<Rightarrow> 'a list" where
  "setAdd x xs = (if x \<in> set xs then xs else xs @ [x])"

definition newSet :: "'a list \<Rightarrow> 'a list" where
  "newSet xs = fold setAdd xs []"

text \<open>
  Readers and writers of \<open>candidates[row][col]\<close>. The candidate grid is always built
  N by N, and on a grid of the declared type every index the solver uses is in range;
  outside the range the source raises a TypeError, the readers here answer "no".
\<close>

definition candHas :: "CandidateGrid \<Rightarrow> nat \<Rightarrow> nat \<Rightarrow> nat \<Rightarrow> bool" where
  "candHas cs row col v = (row < length cs \<and> col < length (cs ! row) \<and> v \<in> set (cs ! row ! col))"

definition candSize :: "CandidateGrid \<Rightarrow> nat \<Rightarrow> nat \<Rightarrow> nat" where
  "candSize cs row col =
     (if row < length cs \<and> col < length (cs ! row) then length (cs ! row ! col) else 0)"

definition candGet :: "CandidateGrid \<Rightarrow> nat \<Rightarrow> nat \<Rightarrow> nat list" where
  "candGet cs row col = (if row < length cs \<and> col < length (cs ! row) then cs ! row ! col else [])"

definition candPut :: "CandidateGrid \<Rightarrow> nat \<Rightarrow> nat \<Rightarrow> nat list \<Rightarrow> CandidateGrid" where
  "candPut cs row col xs = cs[row := (cs ! row)[col := xs]]"

text \<open>\<open>candidates[row][col].delete(value)\<close>\<close>

definition candDelete :: "nat \<Rightarrow> nat \<Rightarrow> nat \<Rightarrow> CandidateGrid \<Rightarrow> CandidateGrid" where
  "candDelete row col v cs =
     (if candHas cs row col v then candPut cs row col (removeAll v (cs ! row ! col)) else cs)"

text \<open>\<open>if (candidates[row][col].has(v)) { candidates[row][col].delete(v); eliminations++ }\<close>\<close>

definition eliminate :: "nat \<Rightarrow> nat \<Rightarrow> nat \<Rightarrow> CandidateGrid \<times> nat \<Rightarrow> CandidateGrid \<times> nat" where
  "eliminate row col v a =
     (if candHas (fst a) row col v then (candDelete row col v (fst a), snd a + 1) else a)"

definition setsEqual :: "nat list \<Rightarrow> nat list \<Rightarrow> bool" where
  "setsEqual a b = (if length a \<noteq> length b then False else list_all (\<lambda>item. item \<in> set b) a)"

section \<open>Units\<close>

definition rowCells :: "nat \<Rightarrow> nat \<Rightarrow> (nat \<times> nat) list" where
  "rowCells gridSize row = map (\<lambda>col. (row, col)) [0..<gridSize]"

definition colCells :: "nat \<Rightarrow> nat \<Rightarrow> (nat \<times> nat) list" where
  "colCells gridSize col = map (\<lambda>row. (row, col)) [0..<gridSize]"

text \<open>The cells of the box at (boxRow, boxCol), rows outermost.\<close>

definition boxCells :: "BoxDimensions \<Rightarrow> nat \<Rightarrow> nat \<Rightarrow> (nat \<times> nat) list" where
  "boxCells bd boxRow boxCol =
     concat (map (\<lambda>r. map (\<lambda>c. (r, c)) [boxCol..<boxCol + cols bd]) [boxRow..<boxRow + rows bd])"

text \<open>\<open>for (let b = 0; b < gridSize; b += k)\<close>: the values \<open>b\<close> takes.\<close>

definition boxStarts :: "nat \<Rightarrow> nat \<Rightarrow> nat list" where
  "boxStarts gridSize k = map (\<lambda>i. i * k) [0..<(gridSize + k - 1) div k]"

definition boxOrigins :: "nat \<Rightarrow> (nat \<times> nat) list" where
  "boxOrigins gridSize =
     (let bd = getBoxDimensions gridSize
      in concat (map (\<lambda>boxRow. map (\<lambda>boxCol. (boxRow, boxCol)) (boxStarts gridSize (cols bd)))
                     (boxStarts gridSize (rows bd))))"

text \<open>The first result of a scan that returns from inside its loops.\<close>

primrec firstSome :: "('a \<Rightarrow> 'b option) \<Rightarrow> 'a list \<Rightarrow> 'b option" where
  "firstSome f [] = None"
| "firstSome f (x # xs) = (case f x of Some y \<Rightarrow> Some y | None \<Rightarrow> firstSome f xs)"

definition numbers :: "nat \<Rightarrow> nat list" where
  "numbers gridSize = [1..<gridSize + 1]"

section \<open>The five techniques (strategy-solver.ts)\<close>

definition buildCandidateGrid :: "SudokuGrid \<Rightarrow> CandidateGrid" where
  "buildCandidateGrid g =
     (let gridSize = length g
      in map (\<lambda>row. map (\<lambda>col. if isNullAt g row col then newSet (getCandidates g row col) else [])
                          [0..<gridSize])
             [0..<gridSize])"

definition findNakedSingle ::
  "SudokuGrid \<Rightarrow> CandidateGrid \<Rightarrow> nat \<Rightarrow> (nat \<times> nat \<times> nat) option" where
  "findNakedSingle g cs gridSize =
     firstSome (\<lambda>(row, col).
                  if isNullAt g row col \<and> candSize cs row col = 1
                  then Some (row, col, hd (candGet cs row col)) else None)
               (List.product [0..<gridSize] [0..<gridSize])"

definition findHiddenSingle ::
  "SudokuGrid \<Rightarrow> CandidateGrid \<Rightarrow> nat \<Rightarrow> (nat \<times> nat \<times> nat) option" where
  "findHiddenSingle g cs gridSize =
     (let boxDims = getBoxDimensions gridSize;
          inRows = firstSome (\<lambda>(row, num).
                     let positions = filter (\<lambda>col. candHas cs row col num) [0..<gridSize]
                     in if length positions = 1 then Some (row, hd positions, num) else None)
                   (List.product [0..<gridSize] (numbers gridSize));
          inCols = firstSome (\<lambda>(col, num).
                     let positions = filter (\<lambda>row. candHas cs row col num) [0..<gridSize]
                     in if length positions = 1 then Some (hd positions, col, num) else None)
                   (List.product [0..<gridSize] (numbers gridSize));
          inBoxes = firstSome (\<lambda>((boxRow, boxCol), num).
                     let positions = filter (\<lambda>(r, c). candHas cs r c num) (boxCells boxDims boxRow boxCol)
                     in if length positions = 1
                        then Some (fst (hd positions), snd (hd positions), num) else None)
                   (List.product (boxOrigins gridSize) (numbers gridSize))
      in case inRows of Some m \<Rightarrow> Some m
         | None \<Rightarrow> (case inCols of Some m \<Rightarrow> Some m | None \<Rightarrow> inBoxes))"

text \<open>
  One pair \<open>(cell1, cell2)\<close> of the double loop of \<open>findNakedPairInUnit\<close>: the two sets are
  read as they are now, the eliminations change them for the pairs that follow.
\<close>

definition nakedPairStep ::
  "(nat \<times> nat) list \<Rightarrow> (nat \<times> nat) \<times> (nat \<times> nat) \<Rightarrow> CandidateGrid \<times> nat \<Rightarrow> CandidateGrid \<times> nat" where
  "nakedPairStep cells p a =
     (let cell1 = fst p; cell2 = snd p;
          cands1 = candGet (fst a) (fst cell1) (snd cell1);
          cands2 = candGet (fst a) (fst cell2) (snd cell2)
      in if length cands1 = 2 \<and> setsEqual cands1 cands2
         then fold (\<lambda>(row, col) b.
                      if (row \<noteq> fst cell1 \<or> col \<noteq> snd cell1) \<and> (row \<noteq> fst cell2 \<or> col \<noteq> snd cell2)
                      then fold (\<lambda>val. eliminate row col val) cands1 b
                      else b)
                   cells a
         else a)"

text \<open>The pairs \<open>(xs[i], xs[j])\<close> with \<open>i < j\<close>, in the order of the double loop.\<close>

fun pairsOf :: "'a list \<Rightarrow> ('a \<times> 'a) list" where
  "pairsOf [] = []"
| "pairsOf (x # xs) = map (\<lambda>y. (x, y)) xs @ pairsOf xs"

definition findNakedPairInUnit ::
  "(nat \<times> nat) list \<Rightarrow> CandidateGrid \<times> nat \<Rightarrow> CandidateGrid \<times> nat" where
  "findNakedPairInUnit cells a =
     (let pairCells = filter (\<lambda>(row, col). candSize (fst a) row col = 2) cells
      in fold (nakedPairStep cells) (pairsOf pairCells) a)"

definition findNakedPairEliminations :: "CandidateGrid \<Rightarrow> nat \<Rightarrow> CandidateGrid \<times> nat" where
  "findNakedPairEliminations cs gridSize =
     (let boxDims = getBoxDimensions gridSize;
          a1 = fold (\<lambda>row. findNakedPairInUnit (rowCells gridSize row)) [0..<gridSize] (cs, 0);
          a2 = fold (\<lambda>col. findNakedPairInUnit (colCells gridSize col)) [0..<gridSize] a1
      in fold (\<lambda>(boxRow, boxCol). findNakedPairInUnit (boxCells boxDims boxRow boxCol))
              (boxOrigins gridSize) a2)"

definition pointingPairStep ::
  "nat \<Rightarrow> BoxDimensions \<Rightarrow> (nat \<times> nat) \<times> nat \<Rightarrow> CandidateGrid \<times> nat \<Rightarrow> CandidateGrid \<times> nat" where
  "pointingPairStep gridSize boxDims bn a =
     (let boxRow = fst (fst bn); boxCol = snd (fst bn); num = snd bn;
          positions = filter (\<lambda>(r, c). candHas (fst a) r c num) (boxCells boxDims boxRow boxCol)
      in if length positions < 2 \<or> length positions > cols boxDims then a
         else
           (let a1 = (if length (newSet (map fst positions)) = 1
                      then fold (\<lambda>col b. if col < boxCol \<or> col \<ge> boxCol + cols boxDims
                                          then eliminate (fst (hd positions)) col num b else b)
                                [0..<gridSize] a
                      else a)
            in if length (newSet (map snd positions)) = 1
               then fold (\<lambda>row b. if row < boxRow \<or> row \<ge> boxRow + rows boxDims
                                   then eliminate row (snd (hd positions)) num b else b)
                         [0..<gridSize] a1
               else a1))"

definition findPointingPairEliminations :: "CandidateGrid \<Rightarrow> nat \<Rightarrow> CandidateGrid \<times> nat" where
  "findPointingPairEliminations cs gridSize =
     fold (pointingPairStep gridSize (getBoxDimensions gridSize))
          (List.product (boxOrigins gridSize) (numbers gridSize)) (cs, 0)"

definition boxLineRowStep ::
  "nat \<Rightarrow> BoxDimensions \<Rightarrow> nat \<times> nat \<Rightarrow> CandidateGrid \<times> nat \<Rightarrow> CandidateGrid \<times> nat" where
  "boxLineRowStep gridSize boxDims rn a =
     (let row = fst rn; num = snd rn;
          cs = filter (\<lambda>col. candHas (fst a) row col num) [0..<gridSize]
      in if length cs < 2 \<or> length cs > cols boxDims then a
         else
           (let boxCol = (hd cs div cols boxDims) * cols boxDims
            in if list_all (\<lambda>c. c \<ge> boxCol \<and> c < boxCol + cols boxDims) cs
               then (let boxRow = (row div rows boxDims) * rows boxDims
                     in fold (\<lambda>r b. if r \<noteq> row
                                     then fold (\<lambda>c. eliminate r c num) [boxCol..<boxCol + cols boxDims] b
                                     else b)
                             [boxRow..<boxRow + rows boxDims] a)
               else a))"

definition boxLineColStep ::
  "nat \<Rightarrow> BoxDimensions \<Rightarrow> nat \<times> nat \<Rightarrow> CandidateGrid \<times> nat \<Rightarrow> CandidateGrid \<times> nat" where
  "boxLineColStep gridSize boxDims cn a =
     (let col = fst cn; num = snd cn;
          rs = filter (\<lambda>row. candHas (fst a) row col num) [0..<gridSize]
      in if length rs < 2 \<or> length rs > rows boxDims then a
         else
           (let boxRow = (hd rs div rows boxDims) * rows boxDims
            in if list_all (\<lambda>r. r \<ge> boxRow \<and> r < boxRow + rows boxDims) rs
               then (let boxCol = (col div cols boxDims) * cols boxDims
                     in fold (\<lambda>r b. fold (\<lambda>c d. if c \<noteq> col then eliminate r c num d else d)
                                          [boxCol..<boxCol + cols boxDims] b)
                             [boxRow..<boxRow + rows boxDims] a)
               else a))"

definition findBoxLineEliminations :: "CandidateGrid \<Rightarrow> nat \<Rightarrow> CandidateGrid \<times> nat" where
  "findBoxLineEliminations cs gridSize =
     (let boxDims = getBoxDimensions gridSize;
          a1 = fold (boxLineRowStep gridSize boxDims)
                    (List.product [0..<gridSize] (numbers gridSize)) (cs, 0)
      in fold (boxLineColStep gridSize boxDims)
              (List.product [0..<gridSize] (numbers gridSize)) a1)"

text \<open>
  \<open>applyMove\<close> writes the value into the working grid, empties the cell's candidate set
  and deletes the value from the sets of the row, the column and the box. It is called
  with the coordinates of a cell that a detector has just read, so the write is in range.
\<close>

definition applyMove ::
  "SudokuGrid \<Rightarrow> CandidateGrid \<Rightarrow> nat \<Rightarrow> nat \<Rightarrow> nat \<Rightarrow> nat \<Rightarrow> SudokuGrid \<times> CandidateGrid" where
  "applyMove g cs row col v gridSize =
     (let g' = g[row := (g ! row)[col := Some v]];
          cs0 = candPut cs row col [];
          boxDims = getBoxDimensions gridSize;
          boxRow = (row div rows boxDims) * rows boxDims;
          boxCol = (col div cols boxDims) * cols boxDims;
          cs1 = fold (\<lambda>c. candDelete row c v) [0..<gridSize] cs0;
          cs2 = fold (\<lambda>r. candDelete r col v) [0..<gridSize] cs1;
          cs3 = fold (\<lambda>(r, c). candDelete r c v) (boxCells boxDims boxRow boxCol) cs2
      in (g', cs3))"

definition isComplete :: "SudokuGrid \<Rightarrow> bool" where
  "isComplete g = list_all (\<lambda>row. list_all (\<lambda>cell. cell \<noteq> None) row) g"

section \<open>The solver loop\<close>

text \<open>
  The local variables of \<open>solveWithStrategies\<close> that the loop changes. \<open>used\<close> is the
  local set \<open>strategiesUsed\<close> and \<open>stepCount\<close> the local \<open>steps\<close>; the result record
  has these two names already.
\<close>

record SolveState =
  workingGrid :: SudokuGrid
  candidates :: CandidateGrid
  used :: "Strategy list"
  currentDifficulty :: Difficulty
  stepCount :: nat

text \<open>
  One pass through the body of \<open>while (madeProgress)\<close>: the flag \<open>madeProgress\<close> at the
  end of the pass and the state it leaves. Each \<open>continue\<close> is a branch that returns.
\<close>

definition iteration :: "nat \<Rightarrow> SolveState \<Rightarrow> bool \<times> SolveState" where
  "iteration gridSize s0 =
     (let s = s0\<lparr>stepCount := stepCount s0 + 1\<rparr>
      in case findNakedSingle (workingGrid s) (candidates s) gridSize of
           Some (row, col, v) \<Rightarrow>
             (let gc = applyMove (workingGrid s) (candidates s) row col v gridSize
              in (True, s\<lparr>workingGrid := fst gc, candidates := snd gc,
                          used := setAdd naked_single (used s),
                          currentDifficulty := maxDifficultyOf (currentDifficulty s) beginner\<rparr>))
         | None \<Rightarrow>
      (case findHiddenSingle (workingGrid s) (candidates s) gridSize of
           Some (row, col, v) \<Rightarrow>
             (let gc = applyMove (workingGrid s) (candidates s) row col v gridSize
              in (True, s\<lparr>workingGrid := fst gc, candidates := snd gc,
                          used := setAdd hidden_single (used s),
                          currentDifficulty := maxDifficultyOf (currentDifficulty s) easy\<rparr>))
         | None \<Rightarrow>
      (let np = findNakedPairEliminations (candidates s) gridSize
       in if snd np > 0
          then (True, s\<lparr>candidates := fst np, used := setAdd naked_pair (used s),
                         currentDifficulty := maxDifficultyOf (currentDifficulty s) medium\<rparr>)
          else
      (let pp = findPointingPairEliminations (fst np) gridSize
       in if snd pp > 0
          then (True, s\<lparr>candidates := fst pp, used := setAdd pointing_pair (used s),
                         currentDifficulty := maxDifficultyOf (currentDifficulty s) hard\<rparr>)
          else
      (let bl = findBoxLineEliminations (fst pp) gridSize
       in if snd bl > 0
          then (True, s\<lparr>candidates := fst bl, used := setAdd box_line_reduction (used s),
                         currentDifficulty := maxDifficultyOf (currentDifficulty s) hard\<rparr>)
          else (False, s\<lparr>candidates := fst bl\<rparr>))))))"

text \<open>The quantity that every pass with progress makes smaller.\<close>

definition emptyCount :: "SudokuGrid \<Rightarrow> nat" where
  "emptyCount g = sum_list (map (\<lambda>row. length (filter (\<lambda>cell. cell = None) row)) g)"

definition totalCandidates :: "CandidateGrid \<Rightarrow> nat" where
  "totalCandidates cs = sum_list (map (\<lambda>row. sum_list (map length row)) cs)"

definition progressMeasure :: "SolveState \<Rightarrow> nat" where
  "progressMeasure s = emptyCount (workingGrid s) + totalCandidates (candidates s)"

section \<open>The priority rule, in the words of the design\<close>

text \<open>
  The design says: apply the highest-priority technique that makes progress, record it,
  restart. The definitions of this section state that rule on the state at the start of a
  pass; the refinement lemma further down compares them with the loop body above.
\<close>

definition priorityOrder :: "Strategy list" where
  "priorityOrder = [naked_single, hidden_single, naked_pair, pointing_pair, box_line_reduction]"

fun finds :: "nat \<Rightarrow> SolveState \<Rightarrow> Strategy \<Rightarrow> bool" where
  "finds n s naked_single = (findNakedSingle (workingGrid s) (candidates s) n \<noteq> None)"
| "finds n s hidden_single = (findHiddenSingle (workingGrid s) (candidates s) n \<noteq> None)"
| "finds n s naked_pair = (snd (findNakedPairEliminations (candidates s) n) > 0)"
| "finds n s pointing_pair = (snd (findPointingPairEliminations (candidates s) n) > 0)"
| "finds n s box_line_reduction = (snd (findBoxLineEliminations (candidates s) n) > 0)"
| "finds n s guessing = False"

definition highestPriorityTechnique :: "nat \<Rightarrow> SolveState \<Rightarrow> Strategy option" where
  "highestPriorityTechnique n s = find (finds n s) priorityOrder"

definition recordTechnique :: "Strategy \<Rightarrow> SolveState \<Rightarrow> SolveState" where
  "recordTechnique t s =
     s\<lparr>used := setAdd t (used s),
       currentDifficulty := maxDifficultyOf (currentDifficulty s) (STRATEGY_DIFFICULTY t)\<rparr>"

definition place :: "nat \<Rightarrow> (nat \<times> nat \<times> nat) option \<Rightarrow> SolveState \<Rightarrow> SolveState" where
  "place n m s =
     (case m of None \<Rightarrow> s
      | Some (row, col, v) \<Rightarrow>
          s\<lparr>workingGrid := fst (applyMove (workingGrid s) (candidates s) row col v n),
            candidates := snd (applyMove (workingGrid s) (candidates s) row col v n)\<rparr>)"

fun perform :: "nat \<Rightarrow> Strategy \<Rightarrow> SolveState \<Rightarrow> SolveState" where
  "perform n naked_single s = place n (findNakedSingle (workingGrid s) (candidates s) n) s"
| "perform n hidden_single s = place n (findHiddenSingle (workingGrid s) (candidates s) n) s"
| "perform n naked_pair s = s\<lparr>candidates := fst (findNakedPairEliminations (candidates s) n)\<rparr>"
| "perform n pointing_pair s = s\<lparr>candidates := fst (findPointingPairEliminations (candidates s) n)\<rparr>"
| "perform n box_line_reduction s = s\<lparr>candidates := fst (findBoxLineEliminations (candidates s) n)\<rparr>"
| "perform n guessing s = s"

definition tick :: "SolveState \<Rightarrow> SolveState" where
  "tick s = s\<lparr>stepCount := stepCount s + 1\<rparr>"

text \<open>
  The bookkeeping of an elimination pass: the counter never goes down, an unchanged counter
  means unchanged candidate sets, and every counted elimination removes a candidate.
\<close>

definition elimOK :: "CandidateGrid \<times> nat \<Rightarrow> CandidateGrid \<times> nat \<Rightarrow> bool" where
  "elimOK a b = (snd a \<le> snd b \<and> (snd b = snd a \<longrightarrow> fst b = fst a)
                 \<and> totalCandidates (fst b) + snd b \<le> totalCandidates (fst a) + snd a)"

section \<open>The hint oracle (useHint of the game store)\<close>

text \<open>
  \<open>StrategyResult\<close> as the hint code builds it: the technique tag, the confidence and the
  cells to highlight (absent in the "advanced" result). The explanation text is left out.
\<close>

record StrategyResult =
  strategy :: string
  confidence :: real
  affectedCells :: "(nat \<times> nat) list option"

record HintOutcome =
  hintCell :: "(nat \<times> nat \<times> nat) option"
  hintStrategy :: StrategyResult

definition boxHeightOf :: "nat \<Rightarrow> nat" where
  "boxHeightOf gridSize = (if gridSize = 6 then 2 else if gridSize = 4 then 2 else 3)"

definition boxWidthOf :: "nat \<Rightarrow> nat" where
  "boxWidthOf gridSize = (if gridSize = 6 then 3 else if gridSize = 4 then 2 else 3)"

definition getRowCellsForHint :: "nat \<Rightarrow> nat \<Rightarrow> nat \<Rightarrow> (nat \<times> nat) list" where
  "getRowCellsForHint gridSize row col = map (\<lambda>c. (row, c)) (filter (\<lambda>c. c \<noteq> col) [0..<gridSize])"

definition getColCellsForHint :: "nat \<Rightarrow> nat \<Rightarrow> nat \<Rightarrow> (nat \<times> nat) list" where
  "getColCellsForHint gridSize row col = map (\<lambda>r. (r, col)) (filter (\<lambda>r. r \<noteq> row) [0..<gridSize])"

definition getBoxCellsForHint :: "nat \<Rightarrow> nat \<Rightarrow> nat \<Rightarrow> (nat \<times> nat) list" where
  "getBoxCellsForHint gridSize row col =
     (let boxHeight = boxHeightOf gridSize; boxWidth = boxWidthOf gridSize;
          boxStartRow = (row div boxHeight) * boxHeight;
          boxStartCol = (col div boxWidth) * boxWidth
      in filter (\<lambda>(r, c). r \<noteq> row \<or> c \<noteq> col)
           (concat (map (\<lambda>r. map (\<lambda>c. (r, c)) [boxStartCol..<boxStartCol + boxWidth])
                        [boxStartRow..<boxStartRow + boxHeight])))"

definition getRelatedCellsForHint :: "nat \<Rightarrow> nat \<Rightarrow> nat \<Rightarrow> (nat \<times> nat) list" where
  "getRelatedCellsForHint gridSize row col =
     getRowCellsForHint gridSize row col @ getColCellsForHint gridSize row col
     @ filter (\<lambda>(r, c). r \<noteq> row \<and> c \<noteq> col) (getBoxCellsForHint gridSize row col)"

text \<open>STEP 1: the first empty cell, rows outermost, with exactly one candidate.\<close>

definition hintNakedSingle :: "SudokuGrid \<Rightarrow> nat \<Rightarrow> ((nat \<times> nat \<times> nat) \<times> StrategyResult) option" where
  "hintNakedSingle g gridSize =
     firstSome (\<lambda>(row, col).
        if \<not> isNullAt g row col then None
        else (let cands = getCandidates g row col
              in if length cands = 1
                 then Some ((row, col, hd cands),
                            \<lparr>strategy = ''single_candidate'', confidence = 1,
                             affectedCells = Some (getRelatedCellsForHint gridSize row col)\<rparr>)
                 else None))
       (List.product [0..<gridSize] [0..<gridSize])"

text \<open>The three tests of STEP 2 for one candidate value of one cell.\<close>

definition uniqueInRow :: "SudokuGrid \<Rightarrow> nat \<Rightarrow> nat \<Rightarrow> nat \<Rightarrow> nat \<Rightarrow> bool" where
  "uniqueInRow g gridSize row col v =
     (\<not> list_ex (\<lambda>c. c \<noteq> col \<and> isNullAt g row c \<and> v \<in> set (getCandidates g row c)) [0..<gridSize])"

definition uniqueInCol :: "SudokuGrid \<Rightarrow> nat \<Rightarrow> nat \<Rightarrow> nat \<Rightarrow> nat \<Rightarrow> bool" where
  "uniqueInCol g gridSize row col v =
     (\<not> list_ex (\<lambda>r. r \<noteq> row \<and> isNullAt g r col \<and> v \<in> set (getCandidates g r col)) [0..<gridSize])"

definition uniqueInBox :: "SudokuGrid \<Rightarrow> nat \<Rightarrow> nat \<Rightarrow> nat \<Rightarrow> nat \<Rightarrow> bool" where
  "uniqueInBox g gridSize row col v =
     (let boxHeight = boxHeightOf gridSize; boxWidth = boxWidthOf gridSize;
          boxStartRow = (row div boxHeight) * boxHeight;
          boxStartCol = (col div boxWidth) * boxWidth
      in \<not> list_ex (\<lambda>r. list_ex (\<lambda>c. (r \<noteq> row \<or> c \<noteq> col) \<and> isNullAt g r c
                                         \<and> v \<in> set (getCandidates g r c))
                               [boxStartCol..<boxStartCol + boxWidth])
                    [boxStartRow..<boxStartRow + boxHeight])"

definition hiddenSingleResult :: "(nat \<times> nat) list \<Rightarrow> StrategyResult" where
  "hiddenSingleResult cells = \<lparr>strategy = ''hidden_single'', confidence = 1, affectedCells = Some cells\<rparr>"

text \<open>
  STEP 2: every empty cell in turn, rows outermost; for each of its candidates in
  ascending order the row test, then the column test, then the box test.
\<close>

definition hintHiddenSingle :: "SudokuGrid \<Rightarrow> nat \<Rightarrow> ((nat \<times> nat \<times> nat) \<times> StrategyResult) option" where
  "hintHiddenSingle g gridSize =
     firstSome (\<lambda>(row, col).
        if \<not> isNullAt g row col then None
        else firstSome (\<lambda>v.
               if uniqueInRow g gridSize row col v
               then Some ((row, col, v), hiddenSingleResult (getRowCellsForHint gridSize row col))
               else if uniqueInCol g gridSize row col v
               then Some ((row, col, v), hiddenSingleResult (getColCellsForHint gridSize row col))
               else if uniqueInBox g gridSize row col v
               then Some ((row, col, v), hiddenSingleResult (getBoxCellsForHint gridSize row col))
               else None)
             (getCandidates g row col))
       (List.product [0..<gridSize] [0..<gridSize])"

text \<open>
  STEP 3, \<open>findPairLeadingToSingle\<close>: the result is the target cell with its value, the
  two cells of the pair and the two values of the pair.
\<close>

definition findPairLeadingToSingle ::
  "SudokuGrid \<Rightarrow> (nat \<times> nat) list \<Rightarrow> ((nat \<times> nat \<times> nat) \<times> (nat \<times> nat) list \<times> nat list) option" where
  "findPairLeadingToSingle g unitCells =
     (let emptyCells = map (\<lambda>(r, c). ((r, c), getCandidates g r c))
                           (filter (\<lambda>(r, c). isNullAt g r c) unitCells);
          pairCandidateCells = filter (\<lambda>cell. length (snd cell) = 2) emptyCells
      in firstSome (\<lambda>(cell1, cell2).
           if snd cell1 ! 0 = snd cell2 ! 0 \<and> snd cell1 ! 1 = snd cell2 ! 1
           then (let pairValues = [snd cell1 ! 0, snd cell2 ! 1]
                 in firstSome (\<lambda>otherCell.
                      if fst otherCell = fst cell1 \<or> fst otherCell = fst cell2 then None
                      else (let remainingCandidates = filter (\<lambda>c. c \<notin> set pairValues) (snd otherCell)
                            in if length remainingCandidates = 1
                               then Some ((fst (fst otherCell), snd (fst otherCell), hd remainingCandidates),
                                          [fst cell1, fst cell2], pairValues)
                               else None))
                    emptyCells)
           else None)
         (pairsOf pairCandidateCells))"

text \<open>The units in the order STEP 3 visits them: rows, then columns, then boxes.\<close>

definition hintBoxUnits :: "nat \<Rightarrow> (nat \<times> nat) list list" where
  "hintBoxUnits gridSize =
     (let boxHeight = boxHeightOf gridSize; boxWidth = boxWidthOf gridSize
      in concat (map (\<lambda>boxRow. map (\<lambda>boxCol.
                   concat (map (\<lambda>r. map (\<lambda>c. (boxRow * boxHeight + r, boxCol * boxWidth + c))
                                        [0..<boxWidth])
                               [0..<boxHeight]))
                 [0..<(gridSize + boxWidth - 1) div boxWidth])
               [0..<(gridSize + boxHeight - 1) div boxHeight]))"

definition hintUnits :: "nat \<Rightarrow> (nat \<times> nat) list list" where
  "hintUnits gridSize =
     map (rowCells gridSize) [0..<gridSize] @ map (colCells gridSize) [0..<gridSize]
     @ hintBoxUnits gridSize"

definition hintNakedPair :: "SudokuGrid \<Rightarrow> nat \<Rightarrow> ((nat \<times> nat \<times> nat) \<times> StrategyResult) option" where
  "hintNakedPair g gridSize =
     firstSome (\<lambda>unitCells.
        case findPairLeadingToSingle g unitCells of
          None \<Rightarrow> None
        | Some (target, pairCells, pairValues) \<Rightarrow>
            Some (target, \<lparr>strategy = ''naked_pair'', confidence = 1, affectedCells = Some pairCells\<rparr>))
       (hintUnits gridSize)"

text \<open>
  \<open>useHint\<close> on a game in progress (a current grid and a solution are present): what it
  stores as \<open>hintCell\<close> and \<open>hintStrategy\<close>.
\<close>

definition useHint :: "SudokuGrid \<Rightarrow> nat \<Rightarrow> HintOutcome" where
  "useHint currentGrid gridSize =
     (let found = (case hintNakedSingle currentGrid gridSize of
                     Some t \<Rightarrow> Some t
                   | None \<Rightarrow>
                       (case hintHiddenSingle currentGrid gridSize of
                          Some t \<Rightarrow> Some t
                        | None \<Rightarrow> hintNakedPair currentGrid gridSize))
      in case found of
           None \<Rightarrow> \<lparr>hintCell = None,
                     hintStrategy = \<lparr>strategy = ''advanced'', confidence = 0, affectedCells = None\<rparr>\<rparr>
         | Some (targetCell, strat) \<Rightarrow> \<lparr>hintCell = Some targetCell, hintStrategy = strat\<rparr>)"


text \<open>The conditions of the design's "otherwise" case, stated on units.\<close>

definition unitsOf :: "nat \<Rightarrow> (nat \<times> nat) list list" where
  "unitsOf n =
     map (rowCells n) [0..<n] @ map (colCells n) [0..<n]
     @ map (\<lambda>(boxRow, boxCol). boxCells (getBoxDimensions n) boxRow boxCol) (boxOrigins n)"

definition candidateCells :: "SudokuGrid \<Rightarrow> (nat \<times> nat) list \<Rightarrow> nat \<Rightarrow> (nat \<times> nat) list" where
  "candidateCells g u v = filter (\<lambda>(r, c). isNullAt g r c \<and> v \<in> set (getCandidates g r c)) u"

definition noNakedSingle :: "SudokuGrid \<Rightarrow> nat \<Rightarrow> bool" where
  "noNakedSingle g n =
     list_all (\<lambda>(row, col). if isNullAt g row col then length (getCandidates g row col) \<noteq> 1 else True)
       (List.product [0..<n] [0..<n])"

definition noHiddenSingle :: "SudokuGrid \<Rightarrow> nat \<Rightarrow> bool" where
  "noHiddenSingle g n =
     list_all (\<lambda>u. list_all (\<lambda>v. length (candidateCells g u v) \<noteq> 1) (numbers n)) (unitsOf n)"

definition pairLeavesSingle :: "SudokuGrid \<Rightarrow> nat \<times> nat \<Rightarrow> nat \<times> nat \<Rightarrow> nat \<times> nat \<Rightarrow> bool" where
  "pairLeavesSingle g p q other =
     (if isNullAt g (fst p) (snd p) \<and> isNullAt g (fst q) (snd q) \<and> isNullAt g (fst other) (snd other)
         \<and> p \<noteq> q \<and> other \<noteq> p \<and> other \<noteq> q
      then length (getCandidates g (fst p) (snd p)) = 2
           \<and> getCandidates g (fst q) (snd q) = getCandidates g (fst p) (snd p)
           \<and> length (filter (\<lambda>x. x \<notin> set (getCandidates g (fst p) (snd p)))
                             (getCandidates g (fst other) (snd other))) = 1
      else False)"

definition noPairLeadingToSingle :: "SudokuGrid \<Rightarrow> nat \<Rightarrow> bool" where
  "noPairLeadingToSingle g n =
     list_all (\<lambda>u. list_all (\<lambda>p. list_all (\<lambda>q. list_all (\<lambda>other. \<not> pairLeavesSingle g p q other) u) u) u)
       (unitsOf n)"










definition stuckGrid :: SudokuGrid where
  "stuckGrid = [[None, None, Some 3, Some 4], [Some 3, Some 4, Some 1, Some 2],
                [None, None, Some 4, Some 3], [Some 4, Some 3, Some 2, Some 1]]"

section \<open>Scans and counters\<close>

lemma firstSome_SomeD: "firstSome f xs = Some y \<Longrightarrow> \<exists>x\<in>set xs. f x = Some y"
  by (induction xs) (auto split: option.splits)

lemma firstSome_None_iff: "firstSome f xs = None \<longleftrightarrow> (\<forall>x\<in>set xs. f x = None)"
  by (induction xs) (auto split: option.splits)

lemma singleton_filter_hd: "length (filter P xs) = 1 \<Longrightarrow> hd (filter P xs) \<in> set xs \<and> P (hd (filter P xs))"
proof -
  assume "length (filter P xs) = 1"
  then have "filter P xs \<noteq> []" by auto
  then have "hd (filter P xs) \<in> set (filter P xs)" by (rule hd_in_set)
  then show ?thesis by simp
qed

lemma totalCandidates_candPut:
  assumes "row < length cs" "col < length (cs ! row)"
  shows "totalCandidates (candPut cs row col xs) + length (cs ! row ! col) = totalCandidates cs + length xs"
proof -
  let ?r = "cs ! row"
  have le1: "length (?r ! col) \<le> sum_list (map length ?r)"
    using assms(2) elem_le_sum_list[of col "map length ?r"] by simp
  have r: "sum_list (map length (?r[col := xs])) + length (?r ! col) = sum_list (map length ?r) + length xs"
    using assms(2) le1 by (simp add: map_update sum_list_update)
  let ?f = "\<lambda>row. sum_list (map length row)"
  have le2: "?f ?r \<le> sum_list (map ?f cs)"
    using assms(1) elem_le_sum_list[of row "map ?f cs"] by simp
  have "sum_list (map ?f (cs[row := ?r[col := xs]])) + ?f ?r = sum_list (map ?f cs) + ?f (?r[col := xs])"
    using assms(1) le2 by (simp add: map_update sum_list_update)
  with r show ?thesis unfolding totalCandidates_def candPut_def by linarith
qed

lemma elimOK_refl: "elimOK a a"
  by (simp add: elimOK_def)

lemma elimOK_trans: "elimOK a b \<Longrightarrow> elimOK b c \<Longrightarrow> elimOK a c"
  unfolding elimOK_def by (metis (no_types, lifting) add_le_cancel_left le_antisym le_trans nat_add_left_cancel_le add.commute)

lemma elimOK_fold:
  assumes "\<And>x b. x \<in> set xs \<Longrightarrow> elimOK b (f x b)"
  shows "elimOK a (fold f xs a)"
  using assms
proof (induction xs arbitrary: a)
  case Nil
  then show ?case by (simp add: elimOK_refl)
next
  case (Cons x xs)
  have "elimOK a (f x a)" using Cons.prems by simp
  moreover have "elimOK (f x a) (fold f xs (f x a))" using Cons by simp
  ultimately show ?case using elimOK_trans by simp
qed

lemma length_removeAll_less: "v \<in> set xs \<Longrightarrow> length (removeAll v xs) < length xs"
  by (induction xs) (auto simp: less_Suc_eq_le length_removeAll_less_eq)

lemma candDelete_total_has:
  assumes "candHas cs r c v"
  shows "totalCandidates (candDelete r c v cs) < totalCandidates cs"
proof -
  from assms have rng: "r < length cs" "c < length (cs ! r)" and mem: "v \<in> set (cs ! r ! c)"
    by (auto simp: candHas_def)
  have "totalCandidates (candPut cs r c (removeAll v (cs ! r ! c))) + length (cs ! r ! c)
        = totalCandidates cs + length (removeAll v (cs ! r ! c))"
    using rng by (rule totalCandidates_candPut)
  with length_removeAll_less[OF mem] show ?thesis using assms by (simp add: candDelete_def)
qed

lemma candDelete_total: "totalCandidates (candDelete r c v cs) \<le> totalCandidates cs"
  using candDelete_total_has[of cs r c v] by (cases "candHas cs r c v") (auto simp: candDelete_def)

lemma eliminate_OK: "elimOK a (eliminate r c v a)"
  using candDelete_total_has[of "fst a" r c v] by (auto simp: elimOK_def eliminate_def)

lemma nakedPairStep_OK: "elimOK a (nakedPairStep cells p a)"
  unfolding nakedPairStep_def Let_def
  by (auto intro!: elimOK_fold elimOK_refl eliminate_OK split: prod.splits)

lemma findNakedPairInUnit_OK: "elimOK a (findNakedPairInUnit cells a)"
  unfolding findNakedPairInUnit_def Let_def by (intro elimOK_fold nakedPairStep_OK)

lemma findNakedPairEliminations_OK: "elimOK (cs, 0) (findNakedPairEliminations cs n)"
  unfolding findNakedPairEliminations_def Let_def
  by (rule elimOK_trans[OF elimOK_fold elimOK_trans[OF elimOK_fold elimOK_fold]])
     (auto intro: findNakedPairInUnit_OK)

lemma pointingPairStep_OK: "elimOK a (pointingPairStep n bd bn a)"
  unfolding pointingPairStep_def Let_def
  by (auto intro!: elimOK_fold elimOK_refl eliminate_OK elimOK_trans[OF elimOK_fold elimOK_fold])

lemma findPointingPairEliminations_OK: "elimOK (cs, 0) (findPointingPairEliminations cs n)"
  unfolding findPointingPairEliminations_def by (intro elimOK_fold pointingPairStep_OK)

lemma boxLineRowStep_OK: "elimOK a (boxLineRowStep n bd rn a)"
  unfolding boxLineRowStep_def Let_def
  by (auto intro!: elimOK_fold elimOK_refl eliminate_OK)

lemma boxLineColStep_OK: "elimOK a (boxLineColStep n bd rn a)"
  unfolding boxLineColStep_def Let_def
  by (auto intro!: elimOK_fold elimOK_refl eliminate_OK)

lemma findBoxLineEliminations_OK: "elimOK (cs, 0) (findBoxLineEliminations cs n)"
  unfolding findBoxLineEliminations_def Let_def
  by (rule elimOK_trans[OF elimOK_fold elimOK_fold]) (auto intro: boxLineRowStep_OK boxLineColStep_OK)

lemma sum_list_update_le:
  fixes f :: "'a \<Rightarrow> nat"
  shows "f y \<le> f (xs ! i) \<Longrightarrow> i < length xs \<Longrightarrow> sum_list (map f (xs[i := y])) \<le> sum_list (map f xs)"
  by (induction xs arbitrary: i) (auto split: nat.splits)

lemma sum_list_update_less:
  fixes f :: "'a \<Rightarrow> nat"
  shows "f y < f (xs ! i) \<Longrightarrow> i < length xs \<Longrightarrow> sum_list (map f (xs[i := y])) < sum_list (map f xs)"
  by (induction xs arbitrary: i) (auto split: nat.splits)

lemma filled_row_le:
  "length (filter (\<lambda>cell. cell = None) (r[col := Some v])) \<le> length (filter (\<lambda>cell. cell = None) r)"
  by (induction r arbitrary: col) (auto split: nat.splits)

lemma filled_row_less:
  "col < length r \<Longrightarrow> r ! col = None \<Longrightarrow>
   length (filter (\<lambda>cell. cell = None) (r[col := Some v])) < length (filter (\<lambda>cell. cell = None) r)"
proof (induction r arbitrary: col)
  case Nil
  then show ?case by simp
next
  case (Cons a r)
  show ?case
  proof (cases col)
    case 0
    with Cons.prems show ?thesis by simp
  next
    case (Suc k)
    with Cons show ?thesis by auto
  qed
qed

lemma emptyCount_write_le: "emptyCount (g[row := (g ! row)[col := Some v]]) \<le> emptyCount g"
proof (cases "row < length g")
  case True
  then show ?thesis unfolding emptyCount_def
    by (intro sum_list_update_le filled_row_le)
next
  case False
  then have "length g \<le> row" by simp
  then show ?thesis by (simp add: list_update_beyond)
qed

lemma emptyCount_write_less:
  "isNullAt g row col \<Longrightarrow> emptyCount (g[row := (g ! row)[col := Some v]]) < emptyCount g"
  unfolding emptyCount_def isNullAt_def
  by (intro sum_list_update_less filled_row_less) auto

lemma candPut_empty_le: "totalCandidates (candPut cs r c []) \<le> totalCandidates cs"
proof (cases "r < length cs \<and> c < length (cs ! r)")
  case True
  then show ?thesis using totalCandidates_candPut[of r cs c "[]"] by simp
next
  case False
  then have "candPut cs r c [] = cs"
    by (cases "r < length cs") (auto simp: candPut_def not_less list_update_beyond)
  then show ?thesis by simp
qed

lemma candPut_empty_less: "candHas cs r c v \<Longrightarrow> totalCandidates (candPut cs r c []) < totalCandidates cs"
proof -
  assume h: "candHas cs r c v"
  then have "length (cs ! r ! c) \<noteq> 0" by (auto simp: candHas_def)
  moreover have "totalCandidates (candPut cs r c []) + length (cs ! r ! c) = totalCandidates cs + length ([]::nat list)"
    using h by (intro totalCandidates_candPut) (auto simp: candHas_def)
  ultimately show ?thesis by (cases "cs ! r ! c") auto
qed

lemma fold_total_le:
  assumes "\<And>x b. totalCandidates (h x b) \<le> totalCandidates b"
  shows "totalCandidates (fold h xs cs) \<le> totalCandidates cs"
proof (induction xs arbitrary: cs)
  case Nil
  then show ?case by simp
next
  case (Cons x xs)
  have "totalCandidates (fold h xs (h x cs)) \<le> totalCandidates (h x cs)" by (rule Cons.IH)
  also have "\<dots> \<le> totalCandidates cs" by (rule assms)
  finally show ?case by simp
qed

lemma applyMove_total_le:
  "totalCandidates (snd (applyMove g cs row col v n)) \<le> totalCandidates (candPut cs row col [])"
proof -
  have a: "\<And>xs cs. totalCandidates (fold (\<lambda>c. candDelete row c v) xs cs) \<le> totalCandidates cs"
    by (rule fold_total_le) (rule candDelete_total)
  have b: "\<And>xs cs. totalCandidates (fold (\<lambda>r. candDelete r col v) xs cs) \<le> totalCandidates cs"
    by (rule fold_total_le) (rule candDelete_total)
  have c: "\<And>xs cs. totalCandidates (fold (\<lambda>(r, c). candDelete r c v) xs cs) \<le> totalCandidates cs"
    by (rule fold_total_le) (auto simp: candDelete_total)
  show ?thesis unfolding applyMove_def Let_def snd_conv
    by (rule order_trans[OF c order_trans[OF b a]])
qed

lemma applyMove_grid: "fst (applyMove g cs row col v n) = g[row := (g ! row)[col := Some v]]"
  by (simp add: applyMove_def Let_def)

lemma findNakedSingle_SomeD:
  "findNakedSingle g cs n = Some (row, col, v) \<Longrightarrow>
     row < n \<and> col < n \<and> isNullAt g row col \<and> candSize cs row col = 1 \<and> v = hd (candGet cs row col)"
  unfolding findNakedSingle_def by (auto dest!: firstSome_SomeD split: if_splits)

lemma findHiddenSingle_SomeD:
  assumes "findHiddenSingle g cs n = Some (row, col, v)"
  shows "candHas cs row col v"
proof -
  let ?bd = "getBoxDimensions n"
  let ?fr = "\<lambda>(row, num). let positions = filter (\<lambda>col. candHas cs row col num) [0..<n]
                     in if length positions = 1 then Some (row, hd positions, num) else None"
  let ?fc = "\<lambda>(col, num). let positions = filter (\<lambda>row. candHas cs row col num) [0..<n]
                     in if length positions = 1 then Some (hd positions, col, num) else None"
  let ?fb = "\<lambda>((boxRow, boxCol), num).
                     let positions = filter (\<lambda>(r, c). candHas cs r c num) (boxCells ?bd boxRow boxCol)
                     in if length positions = 1
                        then Some (fst (hd positions), snd (hd positions), num) else None"
  have r: "\<And>x. ?fr x = Some (row, col, v) \<Longrightarrow> candHas cs row col v"
    using singleton_filter_hd by (fastforce simp: Let_def split: if_splits prod.splits)
  have c: "\<And>x. ?fc x = Some (row, col, v) \<Longrightarrow> candHas cs row col v"
    using singleton_filter_hd by (fastforce simp: Let_def split: if_splits prod.splits)
  have b: "\<And>x. ?fb x = Some (row, col, v) \<Longrightarrow> candHas cs row col v"
  proof -
    fix x assume h: "?fb x = Some (row, col, v)"
    obtain br bc num where x: "x = ((br, bc), num)" by (metis surj_pair)
    let ?ps = "filter (\<lambda>(r, c). candHas cs r c num) (boxCells ?bd br bc)"
    from h x have l: "length ?ps = 1" and e: "row = fst (hd ?ps)" "col = snd (hd ?ps)" "v = num"
      by (auto simp: Let_def split: if_splits)
    from singleton_filter_hd[OF l] have "(\<lambda>(r, c). candHas cs r c num) (hd ?ps)" by simp
    with e show "candHas cs row col v" by (simp add: case_prod_beta)
  qed
  from assms consider
      (R) "firstSome ?fr (List.product [0..<n] (numbers n)) = Some (row, col, v)"
    | (C) "firstSome ?fc (List.product [0..<n] (numbers n)) = Some (row, col, v)"
    | (B) "firstSome ?fb (List.product (boxOrigins n) (numbers n)) = Some (row, col, v)"
    unfolding findHiddenSingle_def Let_def by (auto split: option.splits)
  then show ?thesis
  proof cases
    case R then show ?thesis using r by (blast dest: firstSome_SomeD)
  next
    case C then show ?thesis using c by (blast dest: firstSome_SomeD)
  next
    case B then show ?thesis using b by (blast dest: firstSome_SomeD)
  qed
qed

lemma elimOK_zero: "elimOK (cs, 0) b \<Longrightarrow> snd b = 0 \<Longrightarrow> fst b = cs"
  by (simp add: elimOK_def)

lemma elimOK_pos: "elimOK (cs, 0) b \<Longrightarrow> snd b > 0 \<Longrightarrow> totalCandidates (fst b) < totalCandidates cs"
  by (simp add: elimOK_def)

lemma applyMove_naked_progress:
  assumes "isNullAt g row col"
  shows "emptyCount (fst (applyMove g cs row col v n)) + totalCandidates (snd (applyMove g cs row col v n))
         < emptyCount g + totalCandidates cs"
  using emptyCount_write_less[OF assms, of v] applyMove_total_le[of g cs row col v n]
        candPut_empty_le[of cs row col]
  by (simp add: applyMove_grid)

lemma applyMove_hidden_progress:
  assumes "candHas cs row col v"
  shows "emptyCount (fst (applyMove g cs row col v n)) + totalCandidates (snd (applyMove g cs row col v n))
         < emptyCount g + totalCandidates cs"
  using emptyCount_write_le[of g row col v] applyMove_total_le[of g cs row col v n]
        candPut_empty_less[OF assms]
  by (simp add: applyMove_grid)

lemma iteration_progress:
  assumes "fst (iteration n s)"
  shows "progressMeasure (snd (iteration n s)) < progressMeasure s"
proof (cases "findNakedSingle (workingGrid s) (candidates s) n")
  case (Some m)
  obtain row col v where m: "m = (row, col, v)" by (cases m) auto
  from Some m have "isNullAt (workingGrid s) row col" by (auto dest: findNakedSingle_SomeD)
  from applyMove_naked_progress[OF this, of "candidates s" v n] Some m
  show ?thesis by (simp add: iteration_def progressMeasure_def Let_def)
next
  case None
  note ns = this
  show ?thesis
  proof (cases "findHiddenSingle (workingGrid s) (candidates s) n")
    case (Some m)
    obtain row col v where m: "m = (row, col, v)" by (cases m) auto
    from Some m have "candHas (candidates s) row col v" by (auto dest: findHiddenSingle_SomeD)
    from applyMove_hidden_progress[OF this, of "workingGrid s" n] Some m ns
    show ?thesis by (simp add: iteration_def progressMeasure_def Let_def)
  next
    case None
    note hs = this
    let ?np = "findNakedPairEliminations (candidates s) n"
    show ?thesis
    proof (cases "snd ?np > 0")
      case True
      with elimOK_pos[OF findNakedPairEliminations_OK True] ns hs
      show ?thesis by (simp add: iteration_def progressMeasure_def Let_def)
    next
      case False
      then have np0: "snd ?np = 0" by simp
      then have npc: "fst ?np = candidates s" using elimOK_zero[OF findNakedPairEliminations_OK] by simp
      let ?pp = "findPointingPairEliminations (candidates s) n"
      show ?thesis
      proof (cases "snd ?pp > 0")
        case True
        with elimOK_pos[OF findPointingPairEliminations_OK True] ns hs np0 npc
        show ?thesis by (simp add: iteration_def progressMeasure_def Let_def)
      next
        case False
        then have pp0: "snd ?pp = 0" by simp
        then have ppc: "fst ?pp = candidates s" using elimOK_zero[OF findPointingPairEliminations_OK] by simp
        let ?bl = "findBoxLineEliminations (candidates s) n"
        show ?thesis
        proof (cases "snd ?bl > 0")
          case True
          with elimOK_pos[OF findBoxLineEliminations_OK True] ns hs np0 npc pp0 ppc
          show ?thesis by (simp add: iteration_def progressMeasure_def Let_def)
        next
          case False
          with assms ns hs np0 npc pp0 ppc show ?thesis
            by (simp add: iteration_def Let_def)
        qed
      qed
    qed
  qed
qed

section \<open>solveWithStrategies\<close>

text \<open>
  \<open>while (madeProgress)\<close>: passes are repeated until one ends with the flag false. The
  recursion ends because every pass with progress lowers \<open>progressMeasure\<close>.
\<close>

function solveLoop :: "nat \<Rightarrow> SolveState \<Rightarrow> SolveState" where
  "solveLoop gridSize s =
     (if fst (iteration gridSize s) then solveLoop gridSize (snd (iteration gridSize s))
      else snd (iteration gridSize s))"
  by pat_completeness auto
termination
  by (relation "measure (\<lambda>(gridSize, s). progressMeasure s)") (auto simp: iteration_progress)

definition initialState :: "SudokuGrid \<Rightarrow> SolveState" where
  "initialState g =
     (let working = cloneGrid g
      in \<lparr>workingGrid = working, candidates = buildCandidateGrid working, used = [],
          currentDifficulty = beginner, stepCount = 0\<rparr>)"

definition solveWithStrategies :: "SudokuGrid \<Rightarrow> SolveResult" where
  "solveWithStrategies g =
     (let gridSize = length (cloneGrid g);
          s = solveLoop gridSize (initialState g);
          isSolved = isComplete (workingGrid s)
      in \<lparr>solved = isSolved, grid = workingGrid s,
          strategiesUsed = (if \<not> isSolved then setAdd guessing (used s) else used s),
          maxDifficulty = (if \<not> isSolved then expert else currentDifficulty s),
          steps = stepCount s\<rparr>)"

definition analyzeDifficulty :: "SudokuGrid \<Rightarrow> Difficulty" where
  "analyzeDifficulty g = maxDifficulty (solveWithStrategies g)"

text \<open>The \<open>switch\<close> on the grid size: 4, 6, and 9 together with the default.\<close>

definition getMaxDifficultyForGridSize :: "nat \<Rightarrow> Difficulty" where
  "getMaxDifficultyForGridSize gridSize =
     (if gridSize = 4 then easy else if gridSize = 6 then medium else expert)"

record Validation =
  valid :: bool
  actualDifficulty :: Difficulty
  strategiesList :: "Strategy list"

definition validateDifficulty :: "SudokuGrid \<Rightarrow> Difficulty \<Rightarrow> Validation" where
  "validateDifficulty g expectedDifficulty =
     (let gridSize = length g;
          result = solveWithStrategies g;
          actualIndex = getDifficultyIndex (maxDifficulty result);
          expectedIndex = getDifficultyIndex expectedDifficulty;
          maxAchievable = getMaxDifficultyForGridSize gridSize;
          maxIndex = getDifficultyIndex maxAchievable;
          adjustedExpectedIndex = min expectedIndex maxIndex;
          withinRange = (\<bar>actualIndex - adjustedExpectedIndex\<bar> \<le> 1);
          harderThanExpected = (actualIndex > adjustedExpectedIndex \<and> expectedIndex \<ge> 3)
      in \<lparr>valid = (withinRange \<or> harderThanExpected),
          actualDifficulty = maxDifficulty result,
          strategiesList = strategiesUsed result\<rparr>)"

text \<open>
  The loop body refines the priority rule: the pass applies the first technique of the
  priority list that finds something on the state the pass starts from. A detector that
  counts zero eliminations has left the candidate sets as they were, so the detectors after
  it see the same state.
\<close>

lemma iteration_refines:
  "iteration n s =
     (case highestPriorityTechnique n s of
        None \<Rightarrow> (False, tick s)
      | Some t \<Rightarrow> (True, recordTechnique t (perform n t (tick s))))"
proof (cases "findNakedSingle (workingGrid s) (candidates s) n")
  case (Some m)
  then show ?thesis
    by (cases m) (simp add: iteration_def highestPriorityTechnique_def priorityOrder_def
        recordTechnique_def place_def tick_def Let_def)
next
  case None
  note ns = this
  show ?thesis
  proof (cases "findHiddenSingle (workingGrid s) (candidates s) n")
    case (Some m)
    with ns show ?thesis
      by (cases m) (simp add: iteration_def highestPriorityTechnique_def priorityOrder_def
          recordTechnique_def place_def tick_def Let_def)
  next
    case None
    note hs = this
    let ?np = "findNakedPairEliminations (candidates s) n"
    show ?thesis
    proof (cases "snd ?np > 0")
      case True
      with ns hs show ?thesis
        by (simp add: iteration_def highestPriorityTechnique_def priorityOrder_def
            recordTechnique_def tick_def Let_def)
    next
      case False
      then have np0: "snd ?np = 0" by simp
      then have npc: "fst ?np = candidates s" using elimOK_zero[OF findNakedPairEliminations_OK] by simp
      let ?pp = "findPointingPairEliminations (candidates s) n"
      show ?thesis
      proof (cases "snd ?pp > 0")
        case True
        with ns hs np0 npc show ?thesis
          by (simp add: iteration_def highestPriorityTechnique_def priorityOrder_def
              recordTechnique_def tick_def Let_def)
      next
        case False
        then have pp0: "snd ?pp = 0" by simp
        then have ppc: "fst ?pp = candidates s" using elimOK_zero[OF findPointingPairEliminations_OK] by simp
        let ?bl = "findBoxLineEliminations (candidates s) n"
        show ?thesis
        proof (cases "snd ?bl > 0")
          case True
          with ns hs np0 npc pp0 ppc show ?thesis
            by (simp add: iteration_def highestPriorityTechnique_def priorityOrder_def
                recordTechnique_def tick_def Let_def)
        next
          case False
          then have bl0: "snd ?bl = 0" by simp
          then have blc: "fst ?bl = candidates s" using elimOK_zero[OF findBoxLineEliminations_OK] by simp
          with ns hs np0 npc pp0 ppc bl0 show ?thesis
            by (simp add: iteration_def highestPriorityTechnique_def priorityOrder_def
                tick_def Let_def)
        qed
      qed
    qed
  qed
qed

text \<open>The techniques applied, pass after pass, from a given state.\<close>

lemma technique_progress:
  assumes "highestPriorityTechnique n s = Some t"
  shows "progressMeasure (recordTechnique t (perform n t (tick s))) < progressMeasure s"
  using iteration_progress[of n s] assms by (simp add: iteration_refines)

function techniquesApplied :: "nat \<Rightarrow> SolveState \<Rightarrow> Strategy list" where
  "techniquesApplied n s =
     (case highestPriorityTechnique n s of
        None \<Rightarrow> []
      | Some t \<Rightarrow> t # techniquesApplied n (recordTechnique t (perform n t (tick s))))"
  by pat_completeness auto
termination
  by (relation "measure (\<lambda>(n, s). progressMeasure s)") (auto simp: technique_progress)

declare techniquesApplied.simps [simp del]
declare solveLoop.simps [simp del]

text \<open>The rule of the difficulty classifier, in the words of the design.\<close>

fun difficultyRank :: "Difficulty \<Rightarrow> int" where
  "difficultyRank beginner = 0"
| "difficultyRank easy = 1"
| "difficultyRank medium = 2"
| "difficultyRank hard = 3"
| "difficultyRank expert = 4"

definition sizeCeiling :: "nat \<Rightarrow> Difficulty" where
  "sizeCeiling n = (if n = 4 then easy else if n = 6 then medium else expert)"

definition cappedRequested :: "nat \<Rightarrow> Difficulty \<Rightarrow> Difficulty" where
  "cappedRequested n requested =
     (if difficultyRank requested \<le> difficultyRank (sizeCeiling n) then requested else sizeCeiling n)"

text \<open>A completed 4 by 4 grid, and the grid of the scenario with one cell open.\<close>

definition solvedGrid4 :: SudokuGrid where
  "solvedGrid4 = [[Some 1, Some 2, Some 3, Some 4], [Some 3, Some 4, Some 1, Some 2],
                  [Some 2, Some 1, Some 4, Some 3], [Some 4, Some 3, Some 2, Some 1]]"

definition scenarioGrid :: SudokuGrid where
  "scenarioGrid = [[Some 1, Some 2, Some 3, None], [Some 3, Some 4, Some 1, Some 2],
                   [Some 2, Some 1, Some 4, Some 3], [Some 4, Some 3, Some 2, Some 1]]"

section \<open>A store model: grids as arrays in a heap\<close>

text \<open>
  A JavaScript grid is an array object whose elements are references to row array
  objects. The store maps addresses to objects; a fresh object takes the next free
  address. The candidate table and the sets are objects the solver creates itself and
  never shares with its caller, so they stay values.
\<close>

datatype obj = RowObj "nat option list" | GridObj "nat list"

record Store =
  heap :: "nat \<Rightarrow> obj option"
  nextFree :: nat

definition alloc :: "obj \<Rightarrow> Store \<Rightarrow> nat \<times> Store" where
  "alloc ob st = (nextFree st, \<lparr>heap = (heap st)(nextFree st \<mapsto> ob), nextFree = nextFree st + 1\<rparr>)"

definition rowRefs :: "Store \<Rightarrow> nat \<Rightarrow> nat list" where
  "rowRefs st gref = (case heap st gref of Some (GridObj rs) \<Rightarrow> rs | _ \<Rightarrow> [])"

definition rowAt :: "Store \<Rightarrow> nat \<Rightarrow> nat option list" where
  "rowAt st ra = (case heap st ra of Some (RowObj cells) \<Rightarrow> cells | _ \<Rightarrow> [])"

text \<open>The contents of the grid behind a reference.\<close>

definition deref :: "Store \<Rightarrow> nat \<Rightarrow> SudokuGrid" where
  "deref st gref = map (rowAt st) (rowRefs st gref)"

text \<open>Nothing lives at or beyond the next free address; a grid reference points to a grid of rows.\<close>

definition validStore :: "Store \<Rightarrow> bool" where
  "validStore st = (\<forall>a. nextFree st \<le> a \<longrightarrow> heap st a = None)"

definition validGrid :: "Store \<Rightarrow> nat \<Rightarrow> bool" where
  "validGrid st gref =
     (case heap st gref of
        Some (GridObj rs) \<Rightarrow> list_all (\<lambda>ra. case heap st ra of Some (RowObj cells) \<Rightarrow> True | _ \<Rightarrow> False) rs
      | _ \<Rightarrow> False)"

text \<open>
  Modelled from the spec: \<open>cloneGrid\<close> of the validator module, on the store: a new grid
  object with a new row object for every row, holding the same cells (the design has the
  solver work on a clone, and the callers write into clones of grids they keep).
\<close>

fun cloneRows :: "nat list \<Rightarrow> Store \<Rightarrow> nat list \<times> Store" where
  "cloneRows [] st = ([], st)"
| "cloneRows (ra # ras) st =
     (let a = alloc (RowObj (rowAt st ra)) st;
          r = cloneRows ras (snd a)
      in (fst a # fst r, snd r))"

definition cloneGridS :: "Store \<Rightarrow> nat \<Rightarrow> nat \<times> Store" where
  "cloneGridS st gref = (let r = cloneRows (rowRefs st gref) st in alloc (GridObj (fst r)) (snd r))"

text \<open>\<open>grid[row][col] = value\<close> through a grid reference (the cell is one a detector has read).\<close>

definition writeCell :: "Store \<Rightarrow> nat \<Rightarrow> nat \<Rightarrow> nat \<Rightarrow> nat \<Rightarrow> Store" where
  "writeCell st gref row col v =
     (let rs = rowRefs st gref
      in if row < length rs
         then (case heap st (rs ! row) of
                 Some (RowObj cells) \<Rightarrow> st\<lparr>heap := (heap st)(rs ! row \<mapsto> RowObj (cells[col := Some v]))\<rparr>
               | _ \<Rightarrow> st)
         else st)"

text \<open>
  One pass of the loop on the store: the detectors read the working grid through its
  reference, the two placing branches write the cell through it (the first statement of
  \<open>applyMove\<close>), and everything else is the pass of the value model.
\<close>

definition iterationS :: "nat \<Rightarrow> nat \<Rightarrow> Store \<times> SolveState \<Rightarrow> bool \<times> Store \<times> SolveState" where
  "iterationS gridSize wref x =
     (let st = fst x;
          s = (snd x)\<lparr>workingGrid := deref st wref\<rparr>;
          st' = (case findNakedSingle (workingGrid s) (candidates s) gridSize of
                   Some (row, col, v) \<Rightarrow> writeCell st wref row col v
                 | None \<Rightarrow>
                     (case findHiddenSingle (workingGrid s) (candidates s) gridSize of
                        Some (row, col, v) \<Rightarrow> writeCell st wref row col v
                      | None \<Rightarrow> st))
      in (fst (iteration gridSize s), st', snd (iteration gridSize s)))"

lemma findNakedSingle_has:
  assumes "findNakedSingle g cs n = Some (row, col, v)"
  shows "candHas cs row col v"
proof -
  from findNakedSingle_SomeD[OF assms] have sz: "candSize cs row col = 1"
    and v: "v = hd (candGet cs row col)" by simp_all
  from sz have rng: "row < length cs \<and> col < length (cs ! row)"
    by (auto simp: candSize_def split: if_splits)
  with sz have "length (cs ! row ! col) = 1" by (simp add: candSize_def)
  then have "hd (cs ! row ! col) \<in> set (cs ! row ! col)" by (cases "cs ! row ! col") auto
  with rng v show ?thesis by (simp add: candHas_def candGet_def)
qed

lemma iteration_candidates_decrease:
  assumes "fst (iteration n s)"
  shows "totalCandidates (candidates (snd (iteration n s))) < totalCandidates (candidates s)"
proof -
  from assms obtain t where t: "highestPriorityTechnique n s = Some t"
    by (cases "highestPriorityTechnique n s") (auto simp: iteration_refines)
  then have it: "snd (iteration n s) = recordTechnique t (perform n t (tick s))"
    by (simp add: iteration_refines)
  from t have f: "finds n s t"
    by (auto simp: highestPriorityTechnique_def find_Some_iff)
  show ?thesis
  proof (cases t)
    case naked_single
    with f obtain row col v where m: "findNakedSingle (workingGrid s) (candidates s) n = Some (row, col, v)"
      by auto
    from candPut_empty_less[OF findNakedSingle_has[OF m]]
      applyMove_total_le[of "workingGrid s" "candidates s" row col v n] m
    show ?thesis by (simp add: it naked_single recordTechnique_def place_def tick_def)
  next
    case hidden_single
    with f obtain row col v where m: "findHiddenSingle (workingGrid s) (candidates s) n = Some (row, col, v)"
      by auto
    from candPut_empty_less[OF findHiddenSingle_SomeD[OF m]]
      applyMove_total_le[of "workingGrid s" "candidates s" row col v n] m
    show ?thesis by (simp add: it hidden_single recordTechnique_def place_def tick_def)
  next
    case naked_pair
    with f elimOK_pos[OF findNakedPairEliminations_OK, of "candidates s" n]
    show ?thesis by (simp add: it recordTechnique_def tick_def)
  next
    case pointing_pair
    with f elimOK_pos[OF findPointingPairEliminations_OK, of "candidates s" n]
    show ?thesis by (simp add: it recordTechnique_def tick_def)
  next
    case box_line_reduction
    with f elimOK_pos[OF findBoxLineEliminations_OK, of "candidates s" n]
    show ?thesis by (simp add: it recordTechnique_def tick_def)
  next
    case guessing
    with f show ?thesis by simp
  qed
qed

function solveLoopS :: "nat \<Rightarrow> nat \<Rightarrow> Store \<times> SolveState \<Rightarrow> Store \<times> SolveState" where
  "solveLoopS gridSize wref x =
     (if fst (iterationS gridSize wref x)
      then solveLoopS gridSize wref (snd (iterationS gridSize wref x))
      else snd (iterationS gridSize wref x))"
  by pat_completeness auto
termination
  by (relation "measure (\<lambda>(gridSize, wref, x). totalCandidates (candidates (snd x)))")
     (auto simp: iterationS_def Let_def dest: iteration_candidates_decrease)

declare solveLoopS.simps [simp del]

record SolveResultS =
  solvedS :: bool
  gridRef :: nat
  strategiesUsedS :: "Strategy list"
  maxDifficultyS :: Difficulty
  stepsS :: nat

definition solveWithStrategiesS :: "Store \<Rightarrow> nat \<Rightarrow> Store \<times> SolveResultS" where
  "solveWithStrategiesS st gref =
     (let c = cloneGridS st gref;
          wref = fst c;
          working = deref (snd c) wref;
          gridSize = length working;
          s0 = \<lparr>workingGrid = working, candidates = buildCandidateGrid working, used = [],
                currentDifficulty = beginner, stepCount = 0\<rparr>;
          r = solveLoopS gridSize wref (snd c, s0);
          isSolved = isComplete (deref (fst r) wref)
      in (fst r,
          \<lparr>solvedS = isSolved, gridRef = wref,
           strategiesUsedS = (if \<not> isSolved then setAdd guessing (used (snd r)) else used (snd r)),
           maxDifficultyS = (if \<not> isSolved then expert else currentDifficulty (snd r)),
           stepsS = stepCount (snd r)\<rparr>))"

text \<open>What a caller sees of a result: the fields, with the grid read through its reference.\<close>

definition resultOf :: "Store \<times> SolveResultS \<Rightarrow> SolveResult" where
  "resultOf x =
     \<lparr>solved = solvedS (snd x), grid = deref (fst x) (gridRef (snd x)),
      strategiesUsed = strategiesUsedS (snd x), maxDifficulty = maxDifficultyS (snd x),
      steps = stepsS (snd x)\<rparr>"

text \<open>The state of the store during the loop, relative to the store \<open>st\<close> of the call.\<close>

definition working :: "Store \<Rightarrow> nat \<Rightarrow> Store \<Rightarrow> bool" where
  "working st n cur =
     (heap cur (nextFree st + n) = Some (GridObj [nextFree st..<nextFree st + n])
      \<and> (\<forall>a<nextFree st. heap cur a = heap st a)
      \<and> (\<forall>a. nextFree st \<le> a \<and> a < nextFree st + n \<longrightarrow> (\<exists>cells. heap cur a = Some (RowObj cells))))"


text \<open>A store holding the scenario grid: four rows and the grid object.\<close>

definition storeA :: Store where
  "storeA = \<lparr>heap = [0 \<mapsto> RowObj [Some 1, Some 2, Some 3, None],
                      1 \<mapsto> RowObj [Some 3, Some 4, Some 1, Some 2],
                      2 \<mapsto> RowObj [Some 2, Some 1, Some 4, Some 3],
                      3 \<mapsto> RowObj [Some 4, Some 3, Some 2, Some 1],
                      4 \<mapsto> GridObj [0, 1, 2, 3]],
             nextFree = 5\<rparr>"

section \<open>Facts about the loop\<close>

lemma getDifficultyIndex_rank: "getDifficultyIndex d = difficultyRank d"
  by (cases d) (simp_all add: getDifficultyIndex_def DIFFICULTY_ORDER_def)

lemma perform_used: "used (perform n t s) = used s"
  by (cases t) (auto simp: place_def split: option.splits)

lemma perform_difficulty: "currentDifficulty (perform n t s) = currentDifficulty s"
  by (cases t) (auto simp: place_def split: option.splits)

lemma perform_stepCount: "stepCount (perform n t s) = stepCount s"
  by (cases t) (auto simp: place_def split: option.splits)

lemma solveLoop_unfold:
  "solveLoop n s =
     (case highestPriorityTechnique n s of
        None \<Rightarrow> tick s
      | Some t \<Rightarrow> solveLoop n (recordTechnique t (perform n t (tick s))))"
  by (subst solveLoop.simps) (simp add: iteration_refines split: option.splits)

lemma solveLoop_records:
  "used (solveLoop n s) = fold setAdd (techniquesApplied n s) (used s)
   \<and> currentDifficulty (solveLoop n s)
       = foldl maxDifficultyOf (currentDifficulty s) (map STRATEGY_DIFFICULTY (techniquesApplied n s))
   \<and> stepCount (solveLoop n s) = stepCount s + length (techniquesApplied n s) + 1"
proof (induction n s rule: techniquesApplied.induct)
  case (1 n s)
  show ?case
  proof (cases "highestPriorityTechnique n s")
    case None
    then have "solveLoop n s = tick s" and "techniquesApplied n s = []"
      by (simp_all add: solveLoop_unfold techniquesApplied.simps)
    then show ?thesis by (simp add: tick_def)
  next
    case (Some t)
    let ?s' = "recordTechnique t (perform n t (tick s))"
    from Some have "solveLoop n s = solveLoop n ?s'"
      and "techniquesApplied n s = t # techniquesApplied n ?s'"
      by (simp_all add: solveLoop_unfold techniquesApplied.simps)
    with "1.IH"[OF Some] show ?thesis
      by (simp add: recordTechnique_def perform_used perform_difficulty perform_stepCount tick_def)
  qed
qed

lemma isComplete_not_null: "isComplete g \<Longrightarrow> \<not> isNullAt g row col"
  by (auto simp: isComplete_def isNullAt_def list_all_length)

lemma cloneGrid_id: "cloneGrid g = g"
  by (simp add: cloneGrid_def)

lemma sum_list_all_zero: "(\<And>x. x \<in> set xs \<Longrightarrow> f x = (0::nat)) \<Longrightarrow> sum_list (map f xs) = 0"
  by (induction xs) auto

lemma buildCandidateGrid_complete:
  "isComplete g \<Longrightarrow> totalCandidates (buildCandidateGrid g) = 0"
  unfolding totalCandidates_def buildCandidateGrid_def Let_def
  by (simp add: isComplete_not_null comp_def)

lemma no_candidates_has: "totalCandidates cs = 0 \<Longrightarrow> \<not> candHas cs row col v"
  using candDelete_total_has[of cs row col v] by auto

lemma no_candidates_elim: "totalCandidates cs = 0 \<Longrightarrow> elimOK (cs, 0) b \<Longrightarrow> snd b = 0"
  by (simp add: elimOK_def)

lemma complete_no_technique:
  assumes "isComplete (workingGrid s)" "totalCandidates (candidates s) = 0"
  shows "highestPriorityTechnique n s = None"
proof -
  have "findNakedSingle (workingGrid s) (candidates s) n = None"
  proof (cases "findNakedSingle (workingGrid s) (candidates s) n")
    case (Some m)
    then show ?thesis using isComplete_not_null[OF assms(1)]
      by (cases m) (auto dest: findNakedSingle_SomeD)
  qed simp
  moreover have "findHiddenSingle (workingGrid s) (candidates s) n = None"
  proof (cases "findHiddenSingle (workingGrid s) (candidates s) n")
    case (Some m)
    then show ?thesis using no_candidates_has[OF assms(2)]
      by (cases m) (auto dest: findHiddenSingle_SomeD)
  qed simp
  moreover have "snd (findNakedPairEliminations (candidates s) n) = 0"
    using no_candidates_elim[OF assms(2) findNakedPairEliminations_OK] .
  moreover have "snd (findPointingPairEliminations (candidates s) n) = 0"
    using no_candidates_elim[OF assms(2) findPointingPairEliminations_OK] .
  moreover have "snd (findBoxLineEliminations (candidates s) n) = 0"
    using no_candidates_elim[OF assms(2) findBoxLineEliminations_OK] .
  ultimately show ?thesis
    by (simp add: highestPriorityTechnique_def priorityOrder_def)
qed









section \<open>Facts about the hint oracle\<close>

lemma distinct_rowCells: "distinct (rowCells n row)"
  by (simp add: rowCells_def distinct_map inj_on_def)

lemma distinct_colCells: "distinct (colCells n col)"
  by (simp add: colCells_def distinct_map inj_on_def)

lemma concat_map_product: "concat (map (\<lambda>r. map (\<lambda>c. (r, c)) ys) xs) = List.product xs ys"
  by (induction xs) simp_all

lemma boxCells_product: "boxCells bd a b = List.product [a..<a + rows bd] [b..<b + cols bd]"
  by (simp add: boxCells_def concat_map_product)

lemma distinct_boxCells: "distinct (boxCells bd a b)"
  by (simp add: boxCells_product distinct_product)

lemma filter_eq_single: "distinct xs \<Longrightarrow> a \<in> set xs \<Longrightarrow> filter (\<lambda>y. y = a) xs = [a]"
proof (induction xs)
  case Nil
  then show ?case by simp
next
  case (Cons x xs)
  show ?case
  proof (cases "x = a")
    case True
    with Cons.prems have "a \<notin> set xs" by simp
    then have "filter (\<lambda>y. y = a) xs = []" by (auto simp: filter_empty_conv)
    with True show ?thesis by simp
  next
    case False
    with Cons show ?thesis by simp
  qed
qed

lemma filter_single:
  assumes "distinct xs" "a \<in> set xs" "P a" "\<forall>x\<in>set xs. P x \<longrightarrow> x = a"
  shows "filter P xs = [a]"
proof -
  have "filter P xs = filter (\<lambda>y. y = a) xs"
    by (rule filter_cong) (use assms(3,4) in blast)+
  with filter_eq_single[OF assms(1,2)] show ?thesis by simp
qed

lemma pairsOf_set: "(x, y) \<in> set (pairsOf xs) \<Longrightarrow> x \<in> set xs \<and> y \<in> set xs"
  by (induction xs) auto

lemma pairsOf_distinct:
  "distinct (map f xs) \<Longrightarrow> (x, y) \<in> set (pairsOf xs) \<Longrightarrow> f x \<noteq> f y"
proof (induction xs)
  case Nil
  then show ?case by simp
next
  case (Cons a xs)
  from Cons.prems(2) consider "x = a \<and> y \<in> set xs" | "(x, y) \<in> set (pairsOf xs)" by auto
  then show ?case
  proof cases
    case 1
    with Cons.prems(1) show ?thesis by auto
  next
    case 2
    with Cons show ?thesis by simp
  qed
qed

lemma map_add_upt': "map (\<lambda>i. b + i) [0..<m] = [b..<b + m]"
  by (induction m) simp_all

lemma hintBoxUnits_eq:
  "hintBoxUnits n = map (\<lambda>(boxRow, boxCol). boxCells (getBoxDimensions n) boxRow boxCol) (boxOrigins n)"
proof -
  have h: "boxHeightOf n = rows (getBoxDimensions n)" and w: "boxWidthOf n = cols (getBoxDimensions n)"
    by (simp_all add: boxHeightOf_def boxWidthOf_def getBoxDimensions_def)
  have cells: "concat (map (\<lambda>r. map (\<lambda>c. (a + r, b + c)) [0..<ww]) [0..<hh])
        = concat (map (\<lambda>r. map (\<lambda>c. (r, c)) [b..<b + ww]) [a..<a + hh])" for a b ww hh :: nat
  proof -
    have "map (\<lambda>c. (r, c)) [b..<b + ww] = map (\<lambda>c. (r, b + c)) [0..<ww]" for r :: nat
      by (simp add: map_add_upt'[symmetric] comp_def)
    moreover have "map (\<lambda>r. f r) [a..<a + hh] = map (\<lambda>r. f (a + r)) [0..<hh]" for f :: "nat \<Rightarrow> (nat \<times> nat) list"
      by (simp add: map_add_upt'[symmetric] comp_def)
    ultimately show ?thesis by simp
  qed
  show ?thesis
    unfolding hintBoxUnits_def boxOrigins_def boxStarts_def Let_def h w boxCells_def
    by (simp add: map_concat comp_def cells)
qed


lemma hintUnits_eq: "hintUnits n = unitsOf n"
  by (simp add: hintUnits_def unitsOf_def hintBoxUnits_eq)

lemma distinct_unitsOf: "u \<in> set (unitsOf n) \<Longrightarrow> distinct u"
  unfolding unitsOf_def
  using distinct_rowCells distinct_colCells distinct_boxCells by auto

lemma hint_no_naked_single: "noNakedSingle g n \<Longrightarrow> hintNakedSingle g n = None"
  unfolding hintNakedSingle_def noNakedSingle_def firstSome_None_iff list_all_iff Let_def
  by (auto split: if_splits)

lemma candidates_range: "v \<in> set (getCandidates g r c) \<Longrightarrow> v \<in> set (numbers (length g))"
  by (simp add: getCandidates_def numbers_def)

lemma box_dims_pos: "0 < rows (getBoxDimensions n)" "0 < cols (getBoxDimensions n)"
  by (simp_all add: getBoxDimensions_def)

lemma box_start_member: "0 < k \<Longrightarrow> x < n \<Longrightarrow> (x div k) * k \<in> set (boxStarts n k)"
proof -
  assume k: "0 < k" and x: "x < n"
  have "x div k \<le> (n - 1) div k" using x by (intro div_le_mono) simp
  also have "\<dots> < (n - 1 + k) div k" using k by simp
  also have "n - 1 + k = n + k - 1" using x by simp
  finally show ?thesis by (auto simp: boxStarts_def)
qed

lemma box_span: "0 < k \<Longrightarrow> (x div k) * k \<le> x \<and> x < (x div k) * k + k" for x k :: nat
  using div_mult_mod_eq[of x k] mod_less_divisor[of k x] by linarith

lemma row_unit: "row < n \<Longrightarrow> rowCells n row \<in> set (unitsOf n)"
  by (simp add: unitsOf_def)

lemma col_unit: "col < n \<Longrightarrow> colCells n col \<in> set (unitsOf n)"
  by (simp add: unitsOf_def)

lemma box_unit:
  assumes "row < n" "col < n"
  shows "boxCells (getBoxDimensions n) ((row div rows (getBoxDimensions n)) * rows (getBoxDimensions n))
                  ((col div cols (getBoxDimensions n)) * cols (getBoxDimensions n)) \<in> set (unitsOf n)"
proof -
  let ?bd = "getBoxDimensions n"
  have "((row div rows ?bd) * rows ?bd, (col div cols ?bd) * cols ?bd) \<in> set (boxOrigins n)"
    using box_start_member[OF box_dims_pos(1) assms(1)] box_start_member[OF box_dims_pos(2) assms(2)]
    by (simp add: boxOrigins_def Let_def concat_map_product)
  then show ?thesis unfolding unitsOf_def by force
qed

lemma unique_row_confined:
  assumes "col < n" "isNullAt g row col" "v \<in> set (getCandidates g row col)"
    and "uniqueInRow g n row col v"
  shows "candidateCells g (rowCells n row) v = [(row, col)]"
  unfolding candidateCells_def
proof (rule filter_single[OF distinct_rowCells])
  show "(row, col) \<in> set (rowCells n row)" using assms(1) by (simp add: rowCells_def)
  show "case (row, col) of (r, c) \<Rightarrow> isNullAt g r c \<and> v \<in> set (getCandidates g r c)"
    using assms(2,3) by simp
  show "\<forall>x\<in>set (rowCells n row).
          (case x of (r, c) \<Rightarrow> isNullAt g r c \<and> v \<in> set (getCandidates g r c)) \<longrightarrow> x = (row, col)"
    using assms(4) by (auto simp: rowCells_def uniqueInRow_def list_ex_iff)
qed

lemma unique_col_confined:
  assumes "row < n" "isNullAt g row col" "v \<in> set (getCandidates g row col)"
    and "uniqueInCol g n row col v"
  shows "candidateCells g (colCells n col) v = [(row, col)]"
  unfolding candidateCells_def
proof (rule filter_single[OF distinct_colCells])
  show "(row, col) \<in> set (colCells n col)" using assms(1) by (simp add: colCells_def)
  show "case (row, col) of (r, c) \<Rightarrow> isNullAt g r c \<and> v \<in> set (getCandidates g r c)"
    using assms(2,3) by simp
  show "\<forall>x\<in>set (colCells n col).
          (case x of (r, c) \<Rightarrow> isNullAt g r c \<and> v \<in> set (getCandidates g r c)) \<longrightarrow> x = (row, col)"
    using assms(4) by (auto simp: colCells_def uniqueInCol_def list_ex_iff)
qed

lemma unique_box_confined:
  assumes "isNullAt g row col" "v \<in> set (getCandidates g row col)"
    and "uniqueInBox g n row col v"
  shows "candidateCells g (boxCells (getBoxDimensions n)
            ((row div rows (getBoxDimensions n)) * rows (getBoxDimensions n))
            ((col div cols (getBoxDimensions n)) * cols (getBoxDimensions n))) v = [(row, col)]"
  unfolding candidateCells_def
proof (rule filter_single[OF distinct_boxCells])
  let ?bd = "getBoxDimensions n"
  have h: "boxHeightOf n = rows ?bd" and w: "boxWidthOf n = cols ?bd"
    by (simp_all add: boxHeightOf_def boxWidthOf_def getBoxDimensions_def)
  show "(row, col) \<in> set (boxCells ?bd ((row div rows ?bd) * rows ?bd) ((col div cols ?bd) * cols ?bd))"
    using box_span[OF box_dims_pos(1), where x = row] box_span[OF box_dims_pos(2), where x = col]
    by (simp add: boxCells_product)
  show "case (row, col) of (r, c) \<Rightarrow> isNullAt g r c \<and> v \<in> set (getCandidates g r c)"
    using assms(1,2) by simp
  show "\<forall>x\<in>set (boxCells ?bd ((row div rows ?bd) * rows ?bd) ((col div cols ?bd) * cols ?bd)).
          (case x of (r, c) \<Rightarrow> isNullAt g r c \<and> v \<in> set (getCandidates g r c)) \<longrightarrow> x = (row, col)"
    using assms(3) unfolding uniqueInBox_def Let_def h w boxCells_product list_ex_iff
    by auto
qed

lemma no_hidden_unit:
  "noHiddenSingle g n \<Longrightarrow> u \<in> set (unitsOf n) \<Longrightarrow> v \<in> set (numbers n) \<Longrightarrow> candidateCells g u v \<noteq> [x]"
proof
  assume a: "noHiddenSingle g n" "u \<in> set (unitsOf n)" "v \<in> set (numbers n)"
    and e: "candidateCells g u v = [x]"
  from a have "length (candidateCells g u v) \<noteq> 1"
    by (simp add: noHiddenSingle_def list_all_iff)
  with e show False by simp
qed

lemma hint_no_hidden_single:
  assumes "noHiddenSingle g (length g)"
  shows "hintHiddenSingle g (length g) = None"
proof -
  let ?n = "length g"
  have "\<not> uniqueInRow g ?n row col v \<and> \<not> uniqueInCol g ?n row col v \<and> \<not> uniqueInBox g ?n row col v"
    if "row < ?n" "col < ?n" "isNullAt g row col" "v \<in> set (getCandidates g row col)" for row col v
  proof -
    have v: "v \<in> set (numbers ?n)" using that(4) by (rule candidates_range)
    show ?thesis
      using unique_row_confined[OF that(2,3,4)] unique_col_confined[OF that(1,3,4)]
            unique_box_confined[OF that(3,4)]
            no_hidden_unit[OF assms row_unit[OF that(1)] v]
            no_hidden_unit[OF assms col_unit[OF that(2)] v]
            no_hidden_unit[OF assms box_unit[OF that(1,2)] v]
      by blast
  qed
  then show ?thesis
    unfolding hintHiddenSingle_def by (auto simp: firstSome_None_iff)
qed

lemma two_elements: "length xs = 2 \<Longrightarrow> xs = [xs ! 0, xs ! 1]"
  by (cases xs; cases "tl xs") auto

lemma findPair_none:
  assumes np: "noPairLeadingToSingle g n" and u: "u \<in> set (unitsOf n)"
  shows "findPairLeadingToSingle g u = None"
proof (rule ccontr)
  let ?E = "map (\<lambda>(r, c). ((r, c), getCandidates g r c)) (filter (\<lambda>(r, c). isNullAt g r c) u)"
  let ?P = "filter (\<lambda>cell. length (snd cell) = 2) ?E"
  assume "findPairLeadingToSingle g u \<noteq> None"
  then obtain res where res: "findPairLeadingToSingle g u = Some res" by auto
  have E: "fst e \<in> set u \<and> isNullAt g (fst (fst e)) (snd (fst e))
           \<and> snd e = getCandidates g (fst (fst e)) (snd (fst e))" if "e \<in> set ?E" for e
    using that by auto
  have "map fst ?E = filter (\<lambda>(r, c). isNullAt g r c) u"
    by (induction u) auto
  then have "distinct (map fst ?E)" using distinct_unitsOf[OF u] by simp
  then have dP: "distinct (map fst ?P)" by (rule distinct_map_filter)
  from res obtain pr where pr: "pr \<in> set (pairsOf ?P)"
    and f1: "(case pr of (cell1, cell2) \<Rightarrow>
           if snd cell1 ! 0 = snd cell2 ! 0 \<and> snd cell1 ! 1 = snd cell2 ! 1
           then (let pairValues = [snd cell1 ! 0, snd cell2 ! 1]
                 in firstSome (\<lambda>otherCell.
                      if fst otherCell = fst cell1 \<or> fst otherCell = fst cell2 then None
                      else (let remainingCandidates = filter (\<lambda>c. c \<notin> set pairValues) (snd otherCell)
                            in if length remainingCandidates = 1
                               then Some ((fst (fst otherCell), snd (fst otherCell), hd remainingCandidates),
                                          [fst cell1, fst cell2], pairValues)
                               else None))
                    ?E)
           else None) = Some res"
    unfolding findPairLeadingToSingle_def Let_def by (blast dest: firstSome_SomeD)
  obtain cell1 cell2 where c12: "pr = (cell1, cell2)" by (cases pr) auto
  from pr c12 have in1: "cell1 \<in> set ?P" and in2: "cell2 \<in> set ?P"
    using pairsOf_set[of cell1 cell2 ?P] by simp_all
  then have l1: "length (snd cell1) = 2" and l2: "length (snd cell2) = 2"
    and e1: "cell1 \<in> set ?E" and e2: "cell2 \<in> set ?E" by simp_all
  from pr c12 dP have ne: "fst cell1 \<noteq> fst cell2" using pairsOf_distinct[of fst ?P cell1 cell2] by simp
  from f1 c12 have same: "snd cell1 ! 0 = snd cell2 ! 0" "snd cell1 ! 1 = snd cell2 ! 1"
    by (auto split: if_splits)
  have eq: "snd cell2 = snd cell1"
    using two_elements[OF l1] two_elements[OF l2] same by simp
  have pv: "[snd cell1 ! 0, snd cell2 ! 1] = snd cell1"
    using two_elements[OF l1] same by simp
  from f1 c12 same pv obtain other where o: "other \<in> set ?E"
    and f2: "(if fst other = fst cell1 \<or> fst other = fst cell2 then None
              else (let remainingCandidates = filter (\<lambda>c. c \<notin> set (snd cell1)) (snd other)
                    in if length remainingCandidates = 1
                       then Some ((fst (fst other), snd (fst other), hd remainingCandidates),
                                  [fst cell1, fst cell2], snd cell1)
                       else None)) = Some res"
    by (auto simp: Let_def dest!: firstSome_SomeD)
  from f2 have o1: "fst other \<noteq> fst cell1" and o2: "fst other \<noteq> fst cell2"
    and rem: "length (filter (\<lambda>c. c \<notin> set (snd cell1)) (snd other)) = 1"
    by (auto simp: Let_def split: if_splits)
  have "pairLeavesSingle g (fst cell1) (fst cell2) (fst other)"
    using E[OF e1] E[OF e2] E[OF o] ne o1 o2 l1 eq rem
    by (simp add: pairLeavesSingle_def)
  moreover have "\<not> pairLeavesSingle g (fst cell1) (fst cell2) (fst other)"
    using np u E[OF e1] E[OF e2] E[OF o]
    by (simp add: noPairLeadingToSingle_def list_all_iff)
  ultimately show False by simp
qed

lemma hint_no_naked_pair: "noPairLeadingToSingle g n \<Longrightarrow> hintNakedPair g n = None"
  unfolding hintNakedPair_def firstSome_None_iff hintUnits_eq
  by (simp add: findPair_none)














section \<open>Facts about the store model\<close>

lemma cloneRows_spec:
  assumes "\<forall>ra\<in>set ras. ra < nextFree st"
  shows "fst (cloneRows ras st) = [nextFree st..<nextFree st + length ras]
       \<and> nextFree (snd (cloneRows ras st)) = nextFree st + length ras
       \<and> (\<forall>a. a < nextFree st \<or> nextFree st + length ras \<le> a
               \<longrightarrow> heap (snd (cloneRows ras st)) a = heap st a)
       \<and> (\<forall>i<length ras. heap (snd (cloneRows ras st)) (nextFree st + i) = Some (RowObj (rowAt st (ras ! i))))"
  using assms
proof (induction ras arbitrary: st)
  case Nil
  then show ?case by simp
next
  case (Cons ra ras)
  let ?st1 = "snd (alloc (RowObj (rowAt st ra)) st)"
  have n1: "nextFree ?st1 = nextFree st + 1" by (simp add: alloc_def)
  have h1: "heap ?st1 = (heap st)(nextFree st \<mapsto> RowObj (rowAt st ra))" by (simp add: alloc_def)
  have pre: "\<forall>r\<in>set ras. r < nextFree ?st1" using Cons.prems n1 by auto
  note IH = Cons.IH[OF pre]
  have same: "rowAt ?st1 r = rowAt st r" if "r < nextFree st" for r
  proof -
    from that have "heap ?st1 r = heap st r" by (simp add: h1)
    then show ?thesis by (simp only: rowAt_def)
  qed
  have f0: "fst (alloc (RowObj (rowAt st ra)) st) = nextFree st" by (simp add: alloc_def)
  have e: "[nextFree st..<nextFree st + Suc (length ras)]
           = nextFree st # [Suc (nextFree st)..<Suc (nextFree st) + length ras]"
    using upt_conv_Cons[of "nextFree st" "nextFree st + Suc (length ras)"] by simp
  from IH have f1: "fst (cloneRows ras ?st1) = [nextFree ?st1..<nextFree ?st1 + length ras]"
    and f2: "nextFree (snd (cloneRows ras ?st1)) = nextFree ?st1 + length ras" by blast+
  have a: "fst (cloneRows (ra # ras) st) = [nextFree st..<nextFree st + length (ra # ras)]"
    using e by (simp add: Let_def f0 f1 n1 del: upt_Suc)
  have b: "nextFree (snd (cloneRows (ra # ras) st)) = nextFree st + length (ra # ras)"
    by (simp add: Let_def f2 n1)
  have c: "heap (snd (cloneRows (ra # ras) st)) x = heap st x"
    if "x < nextFree st \<or> nextFree st + length (ra # ras) \<le> x" for x
  proof -
    from that have "x < nextFree ?st1 \<or> nextFree ?st1 + length ras \<le> x" using n1 by auto
    with IH have "heap (snd (cloneRows ras ?st1)) x = heap ?st1 x" by blast
    moreover from that have "x \<noteq> nextFree st" by auto
    ultimately show ?thesis by (simp add: Let_def h1)
  qed
  have d: "heap (snd (cloneRows (ra # ras) st)) (nextFree st + i) = Some (RowObj (rowAt st ((ra # ras) ! i)))"
    if "i < length (ra # ras)" for i
  proof (cases i)
    case 0
    have "nextFree st < nextFree ?st1" using n1 by simp
    with IH have "heap (snd (cloneRows ras ?st1)) (nextFree st) = heap ?st1 (nextFree st)" by blast
    with 0 show ?thesis by (simp add: Let_def h1)
  next
    case (Suc j)
    with that have j: "j < length ras" by simp
    with IH have "heap (snd (cloneRows ras ?st1)) (nextFree ?st1 + j) = Some (RowObj (rowAt ?st1 (ras ! j)))"
      by blast
    moreover have "ras ! j < nextFree st" using Cons.prems j by simp
    ultimately show ?thesis using Suc n1 same by (simp add: Let_def)
  qed
  from a b c d show ?case by blast
qed

lemma valid_refs_allocated:
  assumes "validStore st" "validGrid st gref"
  shows "gref < nextFree st" and "\<forall>ra\<in>set (rowRefs st gref). ra < nextFree st"
proof -
  have alloc: "a < nextFree st" if "heap st a \<noteq> None" for a
    using assms(1) that by (auto simp: validStore_def not_le[symmetric])
  from assms(2) show "gref < nextFree st"
    by (intro alloc) (auto simp: validGrid_def split: option.splits)
  from assms(2) show "\<forall>ra\<in>set (rowRefs st gref). ra < nextFree st"
    by (auto intro!: alloc simp: validGrid_def rowRefs_def list_all_iff split: option.splits obj.splits)
qed

lemma cloneGridS_spec:
  assumes "validStore st" "validGrid st gref"
  shows "fst (cloneGridS st gref) = nextFree st + length (rowRefs st gref)"
    and "working st (length (rowRefs st gref)) (snd (cloneGridS st gref))"
    and "deref (snd (cloneGridS st gref)) (fst (cloneGridS st gref)) = deref st gref"
proof -
  let ?rs = "rowRefs st gref"
  let ?n = "length ?rs"
  let ?c = "cloneRows ?rs st"
  note sp = cloneRows_spec[OF valid_refs_allocated(2)[OF assms]]
  have w: "fst (cloneGridS st gref) = nextFree st + ?n"
    using sp by (simp add: cloneGridS_def Let_def alloc_def)
  have hp: "heap (snd (cloneGridS st gref)) = (heap (snd ?c))(nextFree st + ?n \<mapsto> GridObj [nextFree st..<nextFree st + ?n])"
    using sp by (simp add: cloneGridS_def Let_def alloc_def)
  show "fst (cloneGridS st gref) = nextFree st + ?n" by (rule w)
  show wk: "working st ?n (snd (cloneGridS st gref))"
    unfolding working_def hp using sp
    by (auto simp: nat_le_iff_add)
  have rr: "rowRefs (snd (cloneGridS st gref)) (nextFree st + ?n) = [nextFree st..<nextFree st + ?n]"
    by (simp add: rowRefs_def hp)
  have "rowAt (snd (cloneGridS st gref)) (nextFree st + i) = rowAt st (?rs ! i)" if "i < ?n" for i
    using sp that by (simp add: rowAt_def hp)
  then have "map (rowAt (snd (cloneGridS st gref))) [nextFree st..<nextFree st + ?n] = map (rowAt st) ?rs"
    by (intro nth_equalityI) (simp_all add: ac_simps)
  then show "deref (snd (cloneGridS st gref)) (fst (cloneGridS st gref)) = deref st gref"
    by (simp add: deref_def w rr)
qed

lemma working_rowRefs: "working st n cur \<Longrightarrow> rowRefs cur (nextFree st + n) = [nextFree st..<nextFree st + n]"
  by (simp add: working_def rowRefs_def)

lemma writeCell_working:
  assumes "working st n cur"
  shows "working st n (writeCell cur (nextFree st + n) row col v)"
proof (cases "row < n")
  case False
  then show ?thesis using assms by (simp add: writeCell_def working_rowRefs[OF assms])
next
  case True
  from assms True obtain cells where c: "heap cur (nextFree st + row) = Some (RowObj cells)"
    unfolding working_def by (metis add_less_cancel_left le_add1)
  have w: "writeCell cur (nextFree st + n) row col v
          = cur\<lparr>heap := (heap cur)(nextFree st + row \<mapsto> RowObj (cells[col := Some v]))\<rparr>"
    using True c by (simp add: writeCell_def working_rowRefs[OF assms])
  show ?thesis unfolding w using assms True by (auto simp: working_def)
qed

lemma deref_writeCell:
  assumes "working st n cur"
  shows "deref (writeCell cur (nextFree st + n) row col v) (nextFree st + n)
         = (deref cur (nextFree st + n))[row := (deref cur (nextFree st + n) ! row)[col := Some v]]"
proof (cases "row < n")
  case False
  then show ?thesis using assms
    by (simp add: writeCell_def working_rowRefs[OF assms] deref_def list_update_beyond)
next
  case True
  let ?w = "nextFree st + n"
  from assms True obtain cells where c: "heap cur (nextFree st + row) = Some (RowObj cells)"
    unfolding working_def by (metis add_less_cancel_left le_add1)
  have w: "writeCell cur ?w row col v
          = cur\<lparr>heap := (heap cur)(nextFree st + row \<mapsto> RowObj (cells[col := Some v]))\<rparr>"
    using True c by (simp add: writeCell_def working_rowRefs[OF assms])
  have rr: "rowRefs (writeCell cur ?w row col v) ?w = [nextFree st..<nextFree st + n]"
    using working_rowRefs[OF writeCell_working[OF assms]] .
  have old: "rowAt cur (nextFree st + row) = cells" using c by (simp add: rowAt_def)
  have new: "rowAt (writeCell cur ?w row col v) a
             = (if a = nextFree st + row then cells[col := Some v] else rowAt cur a)" for a
    by (simp add: w rowAt_def)
  show ?thesis
    unfolding deref_def rr working_rowRefs[OF assms]
    using True by (intro nth_equalityI) (auto simp: new old nth_list_update)
qed

lemma iteration_workingGrid:
  "workingGrid (snd (iteration n s)) =
     (case findNakedSingle (workingGrid s) (candidates s) n of
        Some (row, col, v) \<Rightarrow> (workingGrid s)[row := (workingGrid s ! row)[col := Some v]]
      | None \<Rightarrow>
          (case findHiddenSingle (workingGrid s) (candidates s) n of
             Some (row, col, v) \<Rightarrow> (workingGrid s)[row := (workingGrid s ! row)[col := Some v]]
           | None \<Rightarrow> workingGrid s))"
  by (simp add: iteration_def Let_def applyMove_grid split: option.splits)

lemma iterationS_coherent:
  assumes "working st n cur"
  shows "working st n (fst (snd (iterationS k (nextFree st + n) (cur, s))))"
    and "workingGrid (snd (snd (iterationS k (nextFree st + n) (cur, s))))
         = deref (fst (snd (iterationS k (nextFree st + n) (cur, s)))) (nextFree st + n)"
    and "fst (iterationS k (nextFree st + n) (cur, s))
         = fst (iteration k (s\<lparr>workingGrid := deref cur (nextFree st + n)\<rparr>))"
    and "snd (snd (iterationS k (nextFree st + n) (cur, s)))
         = snd (iteration k (s\<lparr>workingGrid := deref cur (nextFree st + n)\<rparr>))"
proof -
  let ?w = "nextFree st + n"
  let ?s = "s\<lparr>workingGrid := deref cur ?w\<rparr>"
  show "working st n (fst (snd (iterationS k ?w (cur, s))))"
    using assms writeCell_working[OF assms]
    by (simp add: iterationS_def Let_def split: option.splits)
  show "workingGrid (snd (snd (iterationS k ?w (cur, s)))) = deref (fst (snd (iterationS k ?w (cur, s)))) ?w"
    using deref_writeCell[OF assms] iteration_workingGrid[of k ?s]
    by (simp add: iterationS_def Let_def split: option.splits)
  show "fst (iterationS k ?w (cur, s)) = fst (iteration k ?s)"
    by (simp add: iterationS_def Let_def)
  show "snd (snd (iterationS k ?w (cur, s))) = snd (iteration k ?s)"
    by (simp add: iterationS_def Let_def)
qed

lemma solveLoopS_coherent:
  assumes "working st n (fst x)" and "w = nextFree st + n"
  shows "working st n (fst (solveLoopS k w x))
       \<and> snd (solveLoopS k w x) = solveLoop k ((snd x)\<lparr>workingGrid := deref (fst x) w\<rparr>)
       \<and> workingGrid (snd (solveLoopS k w x)) = deref (fst (solveLoopS k w x)) w"
  using assms
proof (induction k w x rule: solveLoopS.induct)
  case (1 k w x)
  let ?s = "(snd x)\<lparr>workingGrid := deref (fst x) w\<rparr>"
  let ?r = "iterationS k w x"
  note co = iterationS_coherent[OF "1.prems"(1), of k "snd x", unfolded prod.collapse,
      folded "1.prems"(2)]
  show ?case
  proof (cases "fst ?r")
    case True
    have e: "(snd (snd ?r))\<lparr>workingGrid := deref (fst (snd ?r)) w\<rparr> = snd (snd ?r)"
      using co(2) by simp
    have ih: "working st n (fst (solveLoopS k w (snd ?r)))
        \<and> snd (solveLoopS k w (snd ?r)) = solveLoop k (snd (snd ?r))
        \<and> workingGrid (snd (solveLoopS k w (snd ?r))) = deref (fst (solveLoopS k w (snd ?r))) w"
      using "1.IH"[OF True co(1) "1.prems"(2)] unfolding e .
    have eq1: "solveLoopS k w x = solveLoopS k w (snd ?r)"
      using True by (subst solveLoopS.simps) simp
    have eq2: "solveLoop k ?s = solveLoop k (snd (snd ?r))"
      using True co(3,4) by (subst solveLoop.simps) simp
    show ?thesis unfolding eq1 eq2 by (rule ih)
  next
    case False
    have eq1: "solveLoopS k w x = snd ?r"
      using False by (subst solveLoopS.simps) simp
    have eq2: "solveLoop k ?s = snd (snd ?r)"
      using False co(3,4) by (subst solveLoop.simps) simp
    show ?thesis unfolding eq1 eq2 using co(1,2) by simp
  qed
qed

lemma solveWithStrategiesS_spec:
  assumes "validStore st" "validGrid st gref"
  shows "working st (length (rowRefs st gref)) (fst (solveWithStrategiesS st gref))"
    and "gridRef (snd (solveWithStrategiesS st gref)) = nextFree st + length (rowRefs st gref)"
    and "resultOf (solveWithStrategiesS st gref) = solveWithStrategies (deref st gref)"
proof -
  let ?n = "length (rowRefs st gref)"
  let ?w = "nextFree st + ?n"
  let ?c = "cloneGridS st gref"
  let ?g = "deref st gref"
  note cs = cloneGridS_spec[OF assms]
  let ?s0 = "\<lparr>workingGrid = ?g, candidates = buildCandidateGrid ?g, used = [],
              currentDifficulty = beginner, stepCount = 0\<rparr>"
  let ?r = "solveLoopS (length ?g) ?w (snd ?c, ?s0)"
  have wk: "working st ?n (fst (snd ?c, ?s0))" using cs(2) by simp
  have s0: "(snd (snd ?c, ?s0))\<lparr>workingGrid := deref (fst (snd ?c, ?s0)) ?w\<rparr> = ?s0"
    using cs(1,3) by simp
  have lp: "working st ?n (fst ?r) \<and> snd ?r = solveLoop (length ?g) ?s0
            \<and> workingGrid (snd ?r) = deref (fst ?r) ?w"
    using solveLoopS_coherent[OF wk refl, of "length ?g"] unfolding s0 .
  have i: "initialState ?g = ?s0" by (simp add: initialState_def cloneGrid_id Let_def)
  have unf: "solveWithStrategiesS st gref =
      (fst ?r,
       \<lparr>solvedS = isComplete (deref (fst ?r) ?w), gridRef = ?w,
        strategiesUsedS = (if \<not> isComplete (deref (fst ?r) ?w) then setAdd guessing (used (snd ?r))
                           else used (snd ?r)),
        maxDifficultyS = (if \<not> isComplete (deref (fst ?r) ?w) then expert else currentDifficulty (snd ?r)),
        stepsS = stepCount (snd ?r)\<rparr>)"
    using cs(1,3) by (simp add: solveWithStrategiesS_def Let_def)
  note lp1 = lp[THEN conjunct1]
  note lp2 = lp[THEN conjunct2, THEN conjunct1]
  note lp3 = lp[THEN conjunct2, THEN conjunct2, symmetric]
  show "working st ?n (fst (solveWithStrategiesS st gref))" unfolding unf fst_conv by (rule lp1)
  show "gridRef (snd (solveWithStrategiesS st gref)) = ?w" by (simp add: unf)
  have A: "resultOf (solveWithStrategiesS st gref) =
      \<lparr>solved = isComplete (workingGrid (snd ?r)), grid = workingGrid (snd ?r),
       strategiesUsed = (if \<not> isComplete (workingGrid (snd ?r)) then setAdd guessing (used (snd ?r))
                         else used (snd ?r)),
       maxDifficulty = (if \<not> isComplete (workingGrid (snd ?r)) then expert else currentDifficulty (snd ?r)),
       steps = stepCount (snd ?r)\<rparr>"
    by (simp add: unf resultOf_def lp3)
  have B: "solveWithStrategies ?g =
      \<lparr>solved = isComplete (workingGrid (solveLoop (length ?g) ?s0)),
       grid = workingGrid (solveLoop (length ?g) ?s0),
       strategiesUsed = (if \<not> isComplete (workingGrid (solveLoop (length ?g) ?s0))
                         then setAdd guessing (used (solveLoop (length ?g) ?s0))
                         else used (solveLoop (length ?g) ?s0)),
       maxDifficulty = (if \<not> isComplete (workingGrid (solveLoop (length ?g) ?s0)) then expert
                        else currentDifficulty (solveLoop (length ?g) ?s0)),
       steps = stepCount (solveLoop (length ?g) ?s0)\<rparr>"
    by (simp add: solveWithStrategies_def Let_def cloneGrid_id i)
  show "resultOf (solveWithStrategiesS st gref) = solveWithStrategies ?g"
    unfolding A B lp2 ..
qed


lemma storeA_valid: "validStore storeA" "validGrid storeA 4" "deref storeA 4 = scenarioGrid"
  by (auto simp: validStore_def validGrid_def storeA_def deref_def rowRefs_def rowAt_def scenarioGrid_def)

section \<open>Claims about the solver\<close>

text \<open>
  C6: for every completely filled grid, \<open>solveWithStrategies\<close> returns solved = true, an
  empty set of strategies (no technique is applied), steps = 1 and maxDifficulty = beginner;
  the grid comes back as it was.
\<close>

theorem solved_grid_one_step:
  assumes "wellFormed g" and "isComplete g"
  shows "solveWithStrategies g =
           \<lparr>solved = True, grid = g, strategiesUsed = [], maxDifficulty = beginner, steps = 1\<rparr>"
proof -
  let ?s0 = "initialState g"
  have "highestPriorityTechnique (length g) ?s0 = None"
    using assms(2) by (intro complete_no_technique)
      (simp_all add: initialState_def cloneGrid_id buildCandidateGrid_complete)
  then have "solveLoop (length g) ?s0 = tick ?s0"
    by (simp add: solveLoop_unfold)
  then show ?thesis using assms(2)
    by (simp add: solveWithStrategies_def cloneGrid_id tick_def initialState_def)
qed

theorem solved_grid_one_step_witness:
  "wellFormed solvedGrid4 \<and> isComplete solvedGrid4 \<and>
   solveWithStrategies solvedGrid4 =
     \<lparr>solved = True, grid = solvedGrid4, strategiesUsed = [], maxDifficulty = beginner, steps = 1\<rparr>"
proof -
  have w: "wellFormed solvedGrid4" by (simp add: wellFormed_def solvedGrid4_def)
  have c: "isComplete solvedGrid4" by (simp add: isComplete_def solvedGrid4_def)
  from w c solved_grid_one_step[OF w c] show ?thesis by simp
qed

text \<open>
  C2: in every pass of the main loop the techniques are tried in the order naked single,
  hidden single, naked pair, pointing pair, box/line reduction: the pass applies the first
  technique of that list that finds something on the state the pass started from (so a
  technique is reached only when all before it found nothing), the next pass starts again
  from naked single, and the loop stops exactly in the pass where none finds anything.
  The statement is about any state of the model; the states of a run on a grid of the
  declared type are among them.
\<close>

theorem priority_order:
  "iteration n s =
     (case find (finds n s) [naked_single, hidden_single, naked_pair, pointing_pair, box_line_reduction] of
        None \<Rightarrow> (False, tick s)
      | Some t \<Rightarrow> (True, recordTechnique t (perform n t (tick s))))
   \<and> solveLoop n s =
     (case find (finds n s) [naked_single, hidden_single, naked_pair, pointing_pair, box_line_reduction] of
        None \<Rightarrow> tick s
      | Some t \<Rightarrow> solveLoop n (recordTechnique t (perform n t (tick s))))"
  using iteration_refines[of n s] solveLoop_unfold[of n s]
  by (simp add: highestPriorityTechnique_def priorityOrder_def)

theorem priority_order_witness:
  "iteration 4 (initialState solvedGrid4) =
     (case find (finds 4 (initialState solvedGrid4))
             [naked_single, hidden_single, naked_pair, pointing_pair, box_line_reduction] of
        None \<Rightarrow> (False, tick (initialState solvedGrid4))
      | Some t \<Rightarrow> (True, recordTechnique t (perform 4 t (tick (initialState solvedGrid4)))))
   \<and> solveLoop 4 (initialState solvedGrid4) =
     (case find (finds 4 (initialState solvedGrid4))
             [naked_single, hidden_single, naked_pair, pointing_pair, box_line_reduction] of
        None \<Rightarrow> tick (initialState solvedGrid4)
      | Some t \<Rightarrow> solveLoop 4 (recordTechnique t (perform 4 t (tick (initialState solvedGrid4)))))"
  by (rule priority_order)

text \<open>
  C3: for every grid of size 4, 6 or 9 and every requested difficulty, \<open>validateDifficulty\<close>
  answers valid = true exactly when the actual difficulty (the solver's maxDifficulty) is
  within one level of the requested difficulty capped at the ceiling of the size (4: easy,
  6: medium, 9: expert), or is above the capped level while the request itself is hard or
  expert.
\<close>

theorem validateDifficulty_rule:
  assumes "wellFormed g"
  shows "valid (validateDifficulty g requested) \<longleftrightarrow>
           (let actual = maxDifficulty (solveWithStrategies g);
                capped = cappedRequested (length g) requested
            in \<bar>difficultyRank actual - difficultyRank capped\<bar> \<le> 1
               \<or> (difficultyRank actual > difficultyRank capped
                   \<and> (requested = hard \<or> requested = expert)))"
proof -
  from assms have "length g = 4 \<or> length g = 6 \<or> length g = 9" by (simp add: wellFormed_def)
  then show ?thesis
    by (cases requested; cases "maxDifficulty (solveWithStrategies g)")
       (auto simp: validateDifficulty_def Let_def getDifficultyIndex_rank cappedRequested_def
          sizeCeiling_def getMaxDifficultyForGridSize_def)
qed

theorem validateDifficulty_rule_witness:
  "wellFormed solvedGrid4 \<and>
   (valid (validateDifficulty solvedGrid4 expert) \<longleftrightarrow>
      (let actual = maxDifficulty (solveWithStrategies solvedGrid4);
           capped = cappedRequested (length solvedGrid4) expert
       in \<bar>difficultyRank actual - difficultyRank capped\<bar> \<le> 1
          \<or> (difficultyRank actual > difficultyRank capped
              \<and> (expert = hard \<or> expert = expert))))"
proof -
  have w: "wellFormed solvedGrid4" by (simp add: wellFormed_def solvedGrid4_def)
  from w validateDifficulty_rule[OF w, of expert] show ?thesis by simp
qed



lemma scenario_candidates:
  "buildCandidateGrid scenarioGrid = [[[],[],[],[4]],[[],[],[],[]],[[],[],[],[]],[[],[],[],[]]]"
  by code_simp

lemma scenario_naked_single:
  "findNakedSingle scenarioGrid [[[],[],[],[4]],[[],[],[],[]],[[],[],[],[]],[[],[],[],[]]] 4 = Some (0, 3, 4)"
  by code_simp

lemma scenario_applyMove:
  "applyMove scenarioGrid [[[],[],[],[4]],[[],[],[],[]],[[],[],[],[]],[[],[],[],[]]] 0 3 4 4
     = (solvedGrid4, [[[],[],[],[]],[[],[],[],[]],[[],[],[],[]],[[],[],[],[]]])"
  by code_simp

lemma scenario_first_pass:
  "iteration 4 (initialState scenarioGrid) =
     (True, \<lparr>workingGrid = solvedGrid4,
             candidates = [[[],[],[],[]],[[],[],[],[]],[[],[],[],[]],[[],[],[],[]]],
             used = [naked_single], currentDifficulty = beginner, stepCount = 1\<rparr>)"
  by (simp add: initialState_def cloneGrid_id scenario_candidates iteration_def
      scenario_naked_single scenario_applyMove setAdd_def maxDifficultyOf_def)

lemma solved_first_pass:
  "iteration 4 (initialState solvedGrid4) = (False, tick (initialState solvedGrid4))"
proof -
  have "isComplete solvedGrid4" by (simp add: isComplete_def solvedGrid4_def)
  then have "highestPriorityTechnique 4 (initialState solvedGrid4) = None"
    by (intro complete_no_technique)
       (simp_all add: initialState_def cloneGrid_id buildCandidateGrid_complete)
  then show ?thesis by (simp add: iteration_refines)
qed

text \<open>
  C7: on the grid [[1,2,3,null],[3,4,1,2],[2,1,4,3],[4,3,2,1]] the naked single found is
  cell (0,3) with value 4; \<open>solveWithStrategies\<close> fills it, returns solved = true,
  strategiesUsed = {naked_single} and maxDifficulty = beginner (after two passes).
\<close>

theorem scenario_naked_single_solves:
  "findNakedSingle scenarioGrid (buildCandidateGrid scenarioGrid) 4 = Some (0, 3, 4)
   \<and> solveWithStrategies scenarioGrid =
       \<lparr>solved = True,
        grid = [[Some 1, Some 2, Some 3, Some 4], [Some 3, Some 4, Some 1, Some 2],
                [Some 2, Some 1, Some 4, Some 3], [Some 4, Some 3, Some 2, Some 1]],
        strategiesUsed = [naked_single], maxDifficulty = beginner, steps = 2\<rparr>
   \<and> set (strategiesUsed (solveWithStrategies scenarioGrid)) = {naked_single}"
proof -
  let ?c1 = "[[[],[],[],[]],[[],[],[],[]],[[],[],[],[]],[[],[],[],[]]] :: CandidateGrid"
  let ?s1 = "\<lparr>workingGrid = solvedGrid4, candidates = ?c1, used = [naked_single],
              currentDifficulty = beginner, stepCount = 1\<rparr>"
  have len: "length scenarioGrid = 4" by (simp add: scenarioGrid_def)
  have "isComplete (workingGrid ?s1)" by (simp add: isComplete_def solvedGrid4_def)
  moreover have "totalCandidates (candidates ?s1) = 0" by (simp add: totalCandidates_def)
  ultimately have "highestPriorityTechnique 4 ?s1 = None" by (rule complete_no_technique)
  then have "solveLoop 4 ?s1 = tick ?s1" by (simp add: solveLoop_unfold)
  moreover have "solveLoop 4 (initialState scenarioGrid) = solveLoop 4 ?s1"
    by (subst solveLoop.simps) (simp add: scenario_first_pass)
  ultimately have "solveLoop 4 (initialState scenarioGrid) = tick ?s1" by simp
  then have "solveWithStrategies scenarioGrid =
       \<lparr>solved = True, grid = solvedGrid4,
        strategiesUsed = [naked_single], maxDifficulty = beginner, steps = 2\<rparr>"
    by (simp add: solveWithStrategies_def cloneGrid_id len tick_def isComplete_def solvedGrid4_def)
  then show ?thesis
    by (simp add: scenario_candidates scenario_naked_single solvedGrid4_def)
qed

lemma iteration_progress_kinds:
  assumes "fst (iteration n s)"
  shows "emptyCount (workingGrid (snd (iteration n s))) \<le> emptyCount (workingGrid s)
       \<and> totalCandidates (candidates (snd (iteration n s))) \<le> totalCandidates (candidates s)
       \<and> (emptyCount (workingGrid (snd (iteration n s))) < emptyCount (workingGrid s)
          \<or> totalCandidates (candidates (snd (iteration n s))) < totalCandidates (candidates s))"
proof -
  from assms obtain t where t: "highestPriorityTechnique n s = Some t"
    by (cases "highestPriorityTechnique n s") (auto simp: iteration_refines)
  then have it: "snd (iteration n s) = recordTechnique t (perform n t (tick s))"
    by (simp add: iteration_refines)
  from t have f: "finds n s t" and tin: "t \<in> set priorityOrder"
    by (auto simp: highestPriorityTechnique_def find_Some_iff)
  have mv_le: "emptyCount (fst (applyMove g cs row col v n)) \<le> emptyCount g
        \<and> totalCandidates (snd (applyMove g cs row col v n)) \<le> totalCandidates cs"
    for g cs row col v
    using emptyCount_write_le[of g row col v] applyMove_total_le[of g cs row col v n]
      candPut_empty_le[of cs row col] by (simp add: applyMove_grid)
  show ?thesis
  proof (cases t)
    case naked_single
    with f obtain row col v where m: "findNakedSingle (workingGrid s) (candidates s) n = Some (row, col, v)"
      by auto
    then have "isNullAt (workingGrid s) row col" by (auto dest: findNakedSingle_SomeD)
    from emptyCount_write_less[OF this, of v] mv_le[of "workingGrid s" "candidates s" row col v] m
    show ?thesis by (simp add: it naked_single recordTechnique_def place_def tick_def applyMove_grid)
  next
    case hidden_single
    with f obtain row col v where m: "findHiddenSingle (workingGrid s) (candidates s) n = Some (row, col, v)"
      by auto
    then have "candHas (candidates s) row col v" by (auto dest: findHiddenSingle_SomeD)
    from candPut_empty_less[OF this] applyMove_total_le[of "workingGrid s" "candidates s" row col v n]
      mv_le[of "workingGrid s" "candidates s" row col v] m
    show ?thesis by (simp add: it hidden_single recordTechnique_def place_def tick_def)
  next
    case naked_pair
    with f elimOK_pos[OF findNakedPairEliminations_OK, of "candidates s" n]
    show ?thesis by (simp add: it recordTechnique_def tick_def)
  next
    case pointing_pair
    with f elimOK_pos[OF findPointingPairEliminations_OK, of "candidates s" n]
    show ?thesis by (simp add: it recordTechnique_def tick_def)
  next
    case box_line_reduction
    with f elimOK_pos[OF findBoxLineEliminations_OK, of "candidates s" n]
    show ?thesis by (simp add: it recordTechnique_def tick_def)
  next
    case guessing
    with f show ?thesis by simp
  qed
qed

lemma techniquesApplied_bound: "length (techniquesApplied n s) \<le> progressMeasure s"
proof (induction n s rule: techniquesApplied.induct)
  case (1 n s)
  show ?case
  proof (cases "highestPriorityTechnique n s")
    case None
    then show ?thesis by (simp add: techniquesApplied.simps)
  next
    case (Some t)
    from "1.IH"[OF Some] technique_progress[OF Some] Some show ?thesis
      by (simp add: techniquesApplied.simps)
  qed
qed

lemma sum_list_bounded:
  fixes f :: "'a \<Rightarrow> nat"
  shows "(\<And>x. x \<in> set xs \<Longrightarrow> f x \<le> k) \<Longrightarrow> sum_list (map f xs) \<le> length xs * k"
  by (induction xs) (auto simp: add_le_mono)

lemma length_newSet: "length (newSet xs) \<le> length xs"
proof -
  have "length (fold setAdd xs ys) \<le> length xs + length ys" for ys :: "'a list"
  proof (induction xs arbitrary: ys)
    case Nil
    then show ?case by simp
  next
    case (Cons a xs)
    have "length (fold setAdd xs (setAdd a ys)) \<le> length xs + length (setAdd a ys)"
      by (rule Cons.IH)
    moreover have "length (setAdd a ys) \<le> Suc (length ys)" by (simp add: setAdd_def)
    ultimately show ?case by simp
  qed
  from this[of "[]"] show ?thesis by (simp add: newSet_def)
qed

lemma length_getCandidates: "length (getCandidates g row col) \<le> length g"
proof -
  have "length (getCandidates g row col) \<le> length [1..<length g + 1]"
    unfolding getCandidates_def by (rule length_filter_le)
  also have "\<dots> = length g" by (simp only: length_upt)
  finally show ?thesis .
qed

lemma totalCandidates_initial: "totalCandidates (buildCandidateGrid g) \<le> length g * (length g * length g)"
proof -
  have cell: "length (if isNullAt g row col then newSet (getCandidates g row col) else []) \<le> length g"
    for row col
    using order_trans[OF length_newSet length_getCandidates, of g row col] by simp
  have row: "sum_list (map length (map (\<lambda>col. if isNullAt g row col then newSet (getCandidates g row col) else [])
                          [0..<length g])) \<le> length g * length g" for row
    using sum_list_bounded[of "[0..<length g]"
        "\<lambda>col. length (if isNullAt g row col then newSet (getCandidates g row col) else [])" "length g"]
      cell by (simp add: comp_def)
  show ?thesis
    unfolding totalCandidates_def buildCandidateGrid_def Let_def
    using sum_list_bounded[of "[0..<length g]"
        "\<lambda>row. sum_list (map length (map (\<lambda>col. if isNullAt g row col then newSet (getCandidates g row col) else [])
                          [0..<length g]))" "length g * length g"] row
    by (simp add: comp_def)
qed

lemma emptyCount_bound: "wellFormed g \<Longrightarrow> emptyCount g \<le> length g * length g"
proof -
  assume w: "wellFormed g"
  have "length (filter (\<lambda>cell. cell = None) r) \<le> length g" if "r \<in> set g" for r
  proof -
    have "length (filter (\<lambda>cell. cell = None) r) \<le> length r" by (rule length_filter_le)
    with w that show ?thesis by (auto simp: wellFormed_def list_all_iff)
  qed
  then show ?thesis unfolding emptyCount_def by (rule sum_list_bounded)
qed

text \<open>
  C9: \<open>solveWithStrategies\<close> terminates. A pass with progress never raises the number of
  empty cells or the number of candidate entries and lowers one of them; a pass without
  progress ends the loop; so the number of passes is at most the two numbers at the start
  plus one, and on an N by N grid these are at most N*N and N*N*N. (\<open>solveLoop\<close> is a
  total function: its termination proof is the same measure.)
\<close>

theorem solver_terminates:
  "(fst (iteration n s) \<longrightarrow>
       emptyCount (workingGrid (snd (iteration n s))) \<le> emptyCount (workingGrid s)
     \<and> totalCandidates (candidates (snd (iteration n s))) \<le> totalCandidates (candidates s)
     \<and> (emptyCount (workingGrid (snd (iteration n s))) < emptyCount (workingGrid s)
        \<or> totalCandidates (candidates (snd (iteration n s))) < totalCandidates (candidates s)))
   \<and> (\<not> fst (iteration n s) \<longrightarrow> solveLoop n s = snd (iteration n s))
   \<and> stepCount (solveLoop n s)
        \<le> stepCount s + emptyCount (workingGrid s) + totalCandidates (candidates s) + 1
   \<and> (wellFormed g \<longrightarrow>
        emptyCount (workingGrid (initialState g)) \<le> length g * length g
      \<and> totalCandidates (candidates (initialState g)) \<le> length g * length g * length g
      \<and> steps (solveWithStrategies g) \<le> length g * length g + length g * length g * length g + 1)"
proof -
  have a: "stepCount (solveLoop n s) \<le> stepCount s + emptyCount (workingGrid s) + totalCandidates (candidates s) + 1"
    for n s
    using solveLoop_records[of n s] techniquesApplied_bound[of n s] by (simp add: progressMeasure_def)
  have b: "\<not> fst (iteration n s) \<Longrightarrow> solveLoop n s = snd (iteration n s)"
    by (subst solveLoop.simps) simp
  have c: "wellFormed g \<Longrightarrow>
        emptyCount (workingGrid (initialState g)) \<le> length g * length g
      \<and> totalCandidates (candidates (initialState g)) \<le> length g * length g * length g
      \<and> steps (solveWithStrategies g) \<le> length g * length g + length g * length g * length g + 1"
    using a[of "length g" "initialState g"] emptyCount_bound[of g] totalCandidates_initial[of g]
    by (simp add: solveWithStrategies_def initialState_def Let_def cloneGrid_id mult.assoc)
  from a b c iteration_progress_kinds[of n s] show ?thesis by blast
qed

theorem solver_terminates_witness:
  "fst (iteration 4 (initialState scenarioGrid))
   \<and> emptyCount (workingGrid (snd (iteration 4 (initialState scenarioGrid))))
        \<le> emptyCount (workingGrid (initialState scenarioGrid))
   \<and> totalCandidates (candidates (snd (iteration 4 (initialState scenarioGrid))))
        \<le> totalCandidates (candidates (initialState scenarioGrid))
   \<and> \<not> fst (iteration 4 (initialState solvedGrid4))
   \<and> solveLoop 4 (initialState solvedGrid4) = snd (iteration 4 (initialState solvedGrid4))
   \<and> wellFormed scenarioGrid
   \<and> emptyCount (workingGrid (initialState scenarioGrid)) \<le> 16
   \<and> totalCandidates (candidates (initialState scenarioGrid)) \<le> 64
   \<and> steps (solveWithStrategies scenarioGrid) \<le> 81"
proof -
  have w: "wellFormed scenarioGrid" by (simp add: wellFormed_def scenarioGrid_def)
  have l: "length scenarioGrid = 4" by (simp add: scenarioGrid_def)
  have p: "fst (iteration 4 (initialState scenarioGrid))" by (simp add: scenario_first_pass)
  have q: "\<not> fst (iteration 4 (initialState solvedGrid4))" by (simp add: solved_first_pass)
  from solver_terminates[of 4 "initialState scenarioGrid" scenarioGrid]
       solver_terminates[of 4 "initialState solvedGrid4" scenarioGrid] w l p q
  show ?thesis by simp
qed

section \<open>Claims about the hint oracle\<close>

text \<open>
  C5: on a grid in progress where no empty cell has exactly one candidate, no value is
  confined to a single cell of a row, a column or a box, and no naked pair leaves another
  cell of its unit with exactly one candidate, the hint oracle stores no target cell and a
  result with confidence 0 (tagged "advanced").
\<close>

theorem hint_nothing_solvable:
  assumes "wellFormed g"
    and "noNakedSingle g (length g)"
    and "noHiddenSingle g (length g)"
    and "noPairLeadingToSingle g (length g)"
  shows "hintCell (useHint g (length g)) = None
       \<and> confidence (hintStrategy (useHint g (length g))) = 0
       \<and> strategy (hintStrategy (useHint g (length g))) = ''advanced''"
  using hint_no_naked_single[OF assms(2)] hint_no_hidden_single[OF assms(3)]
        hint_no_naked_pair[OF assms(4)]
  by (simp add: useHint_def)


theorem hint_nothing_solvable_witness:
  "wellFormed stuckGrid \<and> noNakedSingle stuckGrid 4 \<and> noHiddenSingle stuckGrid 4
   \<and> noPairLeadingToSingle stuckGrid 4
   \<and> hintCell (useHint stuckGrid 4) = None
   \<and> confidence (hintStrategy (useHint stuckGrid 4)) = 0
   \<and> strategy (hintStrategy (useHint stuckGrid 4)) = ''advanced''"
proof -
  have l: "length stuckGrid = 4" by (simp add: stuckGrid_def)
  have w: "wellFormed stuckGrid" by (simp add: wellFormed_def stuckGrid_def)
  have a: "noNakedSingle stuckGrid 4" by code_simp
  have b: "noHiddenSingle stuckGrid 4" by code_simp
  have c: "noPairLeadingToSingle stuckGrid 4" by code_simp
  from hint_nothing_solvable[of stuckGrid] w a b c l show ?thesis by simp
qed




section \<open>Claims about mutation\<close>

text \<open>
  C10: \<open>solveWithStrategies\<close> never mutates the grid passed to it. In the store model,
  with a deep-copying \<open>cloneGrid\<close>: every object that existed before the call is unchanged
  after it, so the caller's grid reads cell for cell as before; the grid of the result is a
  new object, and so are its rows.
\<close>

theorem input_grid_not_mutated:
  assumes "validStore st" and "validGrid st gref"
  shows "(\<forall>a<nextFree st. heap (fst (solveWithStrategiesS st gref)) a = heap st a)
       \<and> deref (fst (solveWithStrategiesS st gref)) gref = deref st gref
       \<and> gridRef (snd (solveWithStrategiesS st gref)) \<noteq> gref
       \<and> nextFree st \<le> gridRef (snd (solveWithStrategiesS st gref))
       \<and> set (rowRefs (fst (solveWithStrategiesS st gref)) (gridRef (snd (solveWithStrategiesS st gref))))
          \<inter> set (rowRefs st gref) = {}"
proof -
  let ?r = "solveWithStrategiesS st gref"
  let ?n = "length (rowRefs st gref)"
  note sp = solveWithStrategiesS_spec[OF assms]
  note al = valid_refs_allocated[OF assms]
  from sp(1) have frame: "\<forall>a<nextFree st. heap (fst ?r) a = heap st a" by (simp add: working_def)
  from frame al(1) have rr: "rowRefs (fst ?r) gref = rowRefs st gref" by (simp add: rowRefs_def)
  have "rowAt (fst ?r) ra = rowAt st ra" if "ra \<in> set (rowRefs st gref)" for ra
    using frame al(2) that by (simp add: rowAt_def)
  then have d: "deref (fst ?r) gref = deref st gref" by (simp add: deref_def rr)
  have new: "rowRefs (fst ?r) (gridRef (snd ?r)) = [nextFree st..<nextFree st + ?n]"
    using working_rowRefs[OF sp(1)] by (simp add: sp(2))
  have dis: "set (rowRefs (fst ?r) (gridRef (snd ?r))) \<inter> set (rowRefs st gref) = {}"
    using al(2) unfolding new by auto
  from frame d dis al(1) sp(2) show ?thesis by simp
qed


theorem input_grid_not_mutated_witness:
  "validStore storeA \<and> validGrid storeA 4
   \<and> heap (fst (solveWithStrategiesS storeA 4)) 0 = heap storeA 0
   \<and> heap (fst (solveWithStrategiesS storeA 4)) 4 = heap storeA 4
   \<and> deref (fst (solveWithStrategiesS storeA 4)) 4 = scenarioGrid
   \<and> gridRef (snd (solveWithStrategiesS storeA 4)) \<noteq> 4
   \<and> 5 \<le> gridRef (snd (solveWithStrategiesS storeA 4))
   \<and> set (rowRefs (fst (solveWithStrategiesS storeA 4)) (gridRef (snd (solveWithStrategiesS storeA 4))))
      \<inter> {0, 1, 2, 3} = {}"
proof -
  have n: "nextFree storeA = 5" and r: "rowRefs storeA 4 = [0, 1, 2, 3]"
    by (simp_all add: storeA_def rowRefs_def)
  from input_grid_not_mutated[OF storeA_valid(1,2)] storeA_valid n r show ?thesis by simp
qed



end
